theory Spec2Isabelle
  imports Complex_Main "HOL-Library.Word"
begin

section \<open>Strings and buffers of the JavaScript runtime\<close>

text \<open>
  The server is one JavaScript module, \<^verbatim>\<open>server.js\<close>. A JavaScript string is a sequence
  of 16-bit code units and a Node \<^verbatim>\<open>Buffer\<close> is a sequence of bytes, so the two are
  modelled by lists of 16-bit and of 8-bit words. \<open>js\<close> turns an ASCII literal of the
  source into its code units; \<open>byte\<close> and \<open>unit16\<close> are the stores into a byte and
  into a code unit, which keep the low 8 and the low 16 bits.
\<close>

type_synonym jsstring = "16 word list"
type_synonym buffer = "8 word list"

definition byte :: "nat \<Rightarrow> 8 word" where
  "byte n = of_nat n"

definition unit16 :: "nat \<Rightarrow> 16 word" where
  "unit16 n = of_nat n"

definition js :: "string \<Rightarrow> jsstring" where
  "js cs = map (\<lambda>c. unit16 (of_char c)) cs"

subsection \<open>Code points of a string\<close>

text \<open>
  Reading a string by code points joins a lead surrogate (D800..DBFF) that is followed by
  a trail surrogate (DC00..DFFF) into one supplementary code point. A surrogate that is
  not part of such a pair is a lone surrogate and is reported as \<open>None\<close>. A string
  without lone surrogates is well formed (\<^verbatim>\<open>String.prototype.isWellFormed\<close>): these are
  the strings that have a UTF-8 encoding.
\<close>

definition isLeadSurrogate :: "16 word \<Rightarrow> bool" where
  "isLeadSurrogate u \<longleftrightarrow> 0xD800 \<le> u \<and> u \<le> 0xDBFF"

definition isTrailSurrogate :: "16 word \<Rightarrow> bool" where
  "isTrailSurrogate u \<longleftrightarrow> 0xDC00 \<le> u \<and> u \<le> 0xDFFF"

fun codePoints :: "jsstring \<Rightarrow> nat option list" where
  "codePoints [] = []"
| "codePoints [u] = [if isLeadSurrogate u \<or> isTrailSurrogate u then None else Some (unat u)]"
| "codePoints (u # v # us) =
     (if isLeadSurrogate u \<and> isTrailSurrogate v
      then Some (0x10000 + (unat u - 0xD800) * 0x400 + (unat v - 0xDC00)) # codePoints us
      else (if isLeadSurrogate u \<or> isTrailSurrogate u then None else Some (unat u))
           # codePoints (v # us))"

definition isWellFormed :: "jsstring \<Rightarrow> bool" where
  "isWellFormed s \<longleftrightarrow> None \<notin> set (codePoints s)"

definition isScalar :: "nat \<Rightarrow> bool" where
  "isScalar cp \<longleftrightarrow> cp < 0x110000 \<and> (cp < 0xD800 \<or> 0xDFFF < cp)"

subsection \<open>\<^verbatim>\<open>Buffer.from(s, "utf8")\<close>\<close>

text \<open>
  The UTF-8 bytes of a string: one to four bytes for each code point, and the bytes
  EF BF BD of U+FFFD in place of a lone surrogate.
\<close>

definition utf8_bytes :: "nat \<Rightarrow> buffer" where
  "utf8_bytes cp =
     (if cp < 0x80 then [byte cp]
      else if cp < 0x800 then [byte (0xC0 + cp div 0x40), byte (0x80 + cp mod 0x40)]
      else if cp < 0x10000 then
        [byte (0xE0 + cp div 0x1000), byte (0x80 + cp div 0x40 mod 0x40),
         byte (0x80 + cp mod 0x40)]
      else
        [byte (0xF0 + cp div 0x40000), byte (0x80 + cp div 0x1000 mod 0x40),
         byte (0x80 + cp div 0x40 mod 0x40), byte (0x80 + cp mod 0x40)])"

definition Buffer_from_utf8 :: "jsstring \<Rightarrow> buffer" where
  "Buffer_from_utf8 s =
     concat (map (\<lambda>c. utf8_bytes (case c of None \<Rightarrow> 0xFFFD | Some cp \<Rightarrow> cp)) (codePoints s))"

subsection \<open>\<^verbatim>\<open>buf.toString("utf8")\<close>\<close>

text \<open>
  Decoding never fails: every maximal ill-formed part of the input becomes one U+FFFD.
  The decoder keeps the code point collected so far, the number of continuation bytes
  still needed and the bounds of the next byte; a byte outside the bounds ends the
  sequence with U+FFFD and is then read again as the start of a new sequence. A byte
  order mark is kept. Code points above FFFF are written as a surrogate pair.
\<close>

function utf8_decode :: "nat \<Rightarrow> nat \<Rightarrow> nat \<Rightarrow> nat \<Rightarrow> buffer \<Rightarrow> nat list" where
  "utf8_decode cp need lo hi [] = (if need = 0 then [] else [0xFFFD])"
| "utf8_decode cp need lo hi (b # bs) =
     (if need = 0 then
        (if unat b \<le> 0x7F then unat b # utf8_decode 0 0 0x80 0xBF bs
         else if 0xC2 \<le> unat b \<and> unat b \<le> 0xDF then
           utf8_decode (unat b mod 0x20) 1 0x80 0xBF bs
         else if 0xE0 \<le> unat b \<and> unat b \<le> 0xEF then
           utf8_decode (unat b mod 0x10) 2
             (if unat b = 0xE0 then 0xA0 else 0x80) (if unat b = 0xED then 0x9F else 0xBF) bs
         else if 0xF0 \<le> unat b \<and> unat b \<le> 0xF4 then
           utf8_decode (unat b mod 8) 3
             (if unat b = 0xF0 then 0x90 else 0x80) (if unat b = 0xF4 then 0x8F else 0xBF) bs
         else 0xFFFD # utf8_decode 0 0 0x80 0xBF bs)
      else if unat b < lo \<or> hi < unat b then
        0xFFFD # utf8_decode 0 0 0x80 0xBF (b # bs)
      else if need = 1 then
        (cp * 0x40 + unat b mod 0x40) # utf8_decode 0 0 0x80 0xBF bs
      else utf8_decode (cp * 0x40 + unat b mod 0x40) (need - 1) 0x80 0xBF bs)"
  by pat_completeness auto
termination
  by (relation "measure (\<lambda>(cp, need, lo, hi, bs). 2 * length bs + (if need = 0 then 0 else 1))")
     auto

text \<open>
  The states the decoder can be in between two bytes: outside a sequence, or inside one
  with the code point collected so far in the range its lead byte and the bounds allow.
\<close>

definition decoder_inv :: "nat \<Rightarrow> nat \<Rightarrow> nat \<Rightarrow> nat \<Rightarrow> bool" where
  "decoder_inv cp need lo hi \<longleftrightarrow>
     need = 0
     \<or> (need = 1 \<and> lo = 0x80 \<and> hi = 0xBF \<and> 2 \<le> cp \<and> cp < 0x4400
          \<and> (cp < 0x360 \<or> 0x380 \<le> cp))
     \<or> (need = 2 \<and> lo = 0x80 \<and> hi = 0xBF \<and> 0x10 \<le> cp \<and> cp < 0x110)
     \<or> (need = 2 \<and> cp < 0x10 \<and> lo = (if cp = 0 then 0xA0 else 0x80)
          \<and> hi = (if cp = 13 then 0x9F else 0xBF))
     \<or> (need = 3 \<and> cp < 5 \<and> lo = (if cp = 0 then 0x90 else 0x80)
          \<and> hi = (if cp = 4 then 0x8F else 0xBF))"

definition utf16_units :: "nat \<Rightarrow> jsstring" where
  "utf16_units cp =
     (if cp < 0x10000 then [unit16 cp]
      else [unit16 (0xD800 + (cp - 0x10000) div 0x400),
            unit16 (0xDC00 + (cp - 0x10000) mod 0x400)])"

definition toString_utf8 :: "buffer \<Rightarrow> jsstring" where
  "toString_utf8 bs = concat (map utf16_units (utf8_decode 0 0 0x80 0xBF bs))"

subsection \<open>\<^verbatim>\<open>buf.toString("base64url")\<close>\<close>

text \<open>
  Three bytes give four 6-bit values, each written as a character of the URL-safe
  alphabet; a last group of one or two bytes gives two or three characters, and no
  padding is written.
\<close>

definition base64url_table :: jsstring where
  "base64url_table = js ''ABCDEFGHIJKLMNOPQRSTUVWXYZabcdefghijklmnopqrstuvwxyz0123456789-_''"

fun sextets :: "buffer \<Rightarrow> nat list" where
  "sextets (a # b # c # bs) =
     [unat a div 4, (unat a mod 4) * 16 + unat b div 16,
      (unat b mod 16) * 4 + unat c div 64, unat c mod 64] @ sextets bs"
| "sextets [a, b] = [unat a div 4, (unat a mod 4) * 16 + unat b div 16, (unat b mod 16) * 4]"
| "sextets [a] = [unat a div 4, (unat a mod 4) * 16]"
| "sextets [] = []"

definition toString_base64url :: "buffer \<Rightarrow> jsstring" where
  "toString_base64url bs = map (\<lambda>i. base64url_table ! i) (sextets bs)"

subsection \<open>\<^verbatim>\<open>Buffer.from(s, "base64url")\<close>\<close>

text \<open>
  Node's decoder is lenient and never throws. It reads the low byte of each code unit
  and looks it up in one table for both alphabets (\<open>+\<close> and \<open>-\<close> are 62, \<open>/\<close> and
  \<open>_\<close> are 63). A character that is not in the table is skipped, except \<open>=\<close>, where
  decoding stops. Four 6-bit values give three bytes; a last group of three or two values
  gives two bytes or one, and a single left-over value gives none.
\<close>

definition unbase64 :: "8 word \<Rightarrow> nat option" where
  "unbase64 c =
     (if 0x41 \<le> c \<and> c \<le> 0x5A then Some (unat c - 0x41)
      else if 0x61 \<le> c \<and> c \<le> 0x7A then Some (unat c - 0x61 + 26)
      else if 0x30 \<le> c \<and> c \<le> 0x39 then Some (unat c - 0x30 + 52)
      else if c = 0x2B \<or> c = 0x2D then Some 62
      else if c = 0x2F \<or> c = 0x5F then Some 63
      else None)"

fun scan_sextets :: "jsstring \<Rightarrow> nat list" where
  "scan_sextets [] = []"
| "scan_sextets (u # us) =
     (case unbase64 (ucast u) of
        Some v \<Rightarrow> v # scan_sextets us
      | None \<Rightarrow> if (ucast u :: 8 word) = 0x3D then [] else scan_sextets us)"

fun octets :: "nat list \<Rightarrow> buffer" where
  "octets (p # q # r # s # vs) =
     [byte (p * 4 + q div 16), byte ((q mod 16) * 16 + r div 4), byte ((r mod 4) * 64 + s)]
     @ octets vs"
| "octets [p, q, r] = [byte (p * 4 + q div 16), byte ((q mod 16) * 16 + r div 4)]"
| "octets [p, q] = [byte (p * 4 + q div 16)]"
| "octets [p] = []"
| "octets [] = []"

definition Buffer_from_base64url :: "jsstring \<Rightarrow> buffer" where
  "Buffer_from_base64url s = octets (scan_sextets s)"

subsection \<open>The reference codec of \<^verbatim>\<open>server.js\<close>\<close>

text \<open>
  \<^verbatim>\<open>const b64enc = (s) => Buffer.from(s, "utf8").toString("base64url");\<close>

  \<^verbatim>\<open>const b64dec = (s) => Buffer.from(s, "base64url").toString("utf8");\<close>
\<close>

definition b64enc :: "jsstring \<Rightarrow> jsstring" where
  "b64enc s = toString_base64url (Buffer_from_utf8 s)"

definition b64dec :: "jsstring \<Rightarrow> jsstring" where
  "b64dec s = toString_utf8 (Buffer_from_base64url s)"

section \<open>Values exchanged with the outside\<close>

text \<open>
  JSON values as \<^verbatim>\<open>JSON.parse\<close> delivers them and as object literals of the source build
  them. A number is the exact value of its literal. An object is the list of its own
  properties, each key once. A property whose value is \<^verbatim>\<open>undefined\<close> is no property
  here: \<^verbatim>\<open>JSON.stringify\<close> leaves it out. \<^verbatim>\<open>undefined\<close> itself is \<open>None\<close> of type
  \<open>json option\<close>.
\<close>

datatype json =
  JNull
  | JBool bool
  | JNum rat
  | JStr jsstring
  | JArr "json list"
  | JObj "(jsstring \<times> json) list"

text \<open>
  The errors the module can raise: its own \<^verbatim>\<open>new Error(message)\<close>, the \<^verbatim>\<open>TypeError\<close> of a
  rejected \<^verbatim>\<open>fetch\<close>, the \<^verbatim>\<open>SyntaxError\<close> of \<^verbatim>\<open>res.json()\<close> on a body that is not JSON,
  and the \<^verbatim>\<open>URIError\<close> of \<^verbatim>\<open>encodeURIComponent\<close>.
\<close>

datatype js_error = Error jsstring | TypeError | SyntaxError | URIError

record request =
  req_url :: jsstring
  req_method :: jsstring
  req_headers :: "(jsstring \<times> jsstring) list"
  req_body :: jsstring

text \<open>
  A response carries its status; \<open>res_text\<close> is what \<^verbatim>\<open>res.text()\<close> gives (\<open>None\<close> when
  reading the body fails) and \<open>res_json\<close> what \<^verbatim>\<open>res.json()\<close> gives (\<open>None\<close> when the
  body is not JSON text and the promise rejects). \<^verbatim>\<open>res.ok\<close> is a status from 200 to 299.
\<close>

record response =
  res_status :: nat
  res_text :: "jsstring option"
  res_json :: "json option"

definition res_ok :: "response \<Rightarrow> bool" where
  "res_ok res \<longleftrightarrow> 200 \<le> res_status res \<and> res_status res \<le> 299"

datatype fetch_outcome = Rejected | Resolved response

text \<open>
  What the module takes from its runtime and does not define: \<^verbatim>\<open>JSON.stringify\<close>, the
  conversion of a value to a string inside a template literal, and the network behind
  the global \<^verbatim>\<open>fetch\<close>. They are parameters of the model. \<^verbatim>\<open>console.log\<close> is left out.
\<close>

record runtime =
  JSON_stringify :: "json \<Rightarrow> jsstring"
  ToString :: "json \<Rightarrow> jsstring"
  fetch :: "request \<Rightarrow> fetch_outcome"

text \<open>The environment variables the module reads when it is loaded.\<close>

record env =
  PERPLEXITY_API_KEY :: "jsstring option"
  PERPLEXITY_MODEL :: "jsstring option"

text \<open>
  \<^verbatim>\<open>const PPLX_API_KEY = process.env.PERPLEXITY_API_KEY;\<close>

  \<^verbatim>\<open>const PPLX_MODEL = process.env.PERPLEXITY_MODEL || "sonar-pro";\<close>

  \<^verbatim>\<open>const PPLX_URL = "https://api.perplexity.ai/chat/completions";\<close>
\<close>

definition PPLX_API_KEY :: "env \<Rightarrow> jsstring option" where
  "PPLX_API_KEY e = PERPLEXITY_API_KEY e"

definition PPLX_MODEL :: "env \<Rightarrow> jsstring" where
  "PPLX_MODEL e =
     (case PERPLEXITY_MODEL e of
        None \<Rightarrow> js ''sonar-pro''
      | Some m \<Rightarrow> if m = [] then js ''sonar-pro'' else m)"

definition PPLX_URL :: jsstring where
  "PPLX_URL = js ''https://api.perplexity.ai/chat/completions''"

subsection \<open>Truthiness, optional chaining and \<^verbatim>\<open>??\<close>\<close>

definition truthy_string :: "jsstring option \<Rightarrow> bool" where
  "truthy_string v = (case v of None \<Rightarrow> False | Some s \<Rightarrow> s \<noteq> [])"

definition truthy_number :: "int option \<Rightarrow> bool" where
  "truthy_number v = (case v of None \<Rightarrow> False | Some n \<Rightarrow> n \<noteq> 0)"

text \<open>
  \<open>opt_prop v k\<close> is \<^verbatim>\<open>v?.k\<close> for the property names the source reads (none of them is
  inherited from a prototype), and \<open>opt_first v\<close> is \<^verbatim>\<open>v?.[0]\<close>: the first element of an
  array, the first code unit of a string, the property \<^verbatim>\<open>"0"\<close> of an object.
\<close>

fun opt_prop :: "json option \<Rightarrow> jsstring \<Rightarrow> json option" where
  "opt_prop (Some (JObj kvs)) k = map_of kvs k"
| "opt_prop _ k = None"

fun opt_first :: "json option \<Rightarrow> json option" where
  "opt_first (Some (JArr (x # xs))) = Some x"
| "opt_first (Some (JStr (c # cs))) = Some (JStr [c])"
| "opt_first (Some (JObj kvs)) = map_of kvs (js ''0'')"
| "opt_first _ = None"

definition nullish :: "json option \<Rightarrow> bool" where
  "nullish v \<longleftrightarrow> v = None \<or> v = Some JNull"

fun coalesce :: "json option \<Rightarrow> json \<Rightarrow> json" where
  "coalesce None d = d"
| "coalesce (Some v) d = (if v = JNull then d else v)"

section \<open>The answer gateway: \<^verbatim>\<open>askPerplexity\<close>\<close>

record opts =
  style :: "jsstring option"
  minWords :: "int option"

record answer =
  full :: json
  meta_model :: "json option"
  meta_usage :: "json option"

definition default_system :: jsstring where
  "default_system = js ''Answer helpfully and accurately.''"

text \<open>The constant \<^verbatim>\<open>target\<close> of the source; \<open>None\<close> is \<^verbatim>\<open>undefined\<close>.\<close>

definition target :: "opts \<Rightarrow> int option" where
  "target o' =
     (if style o' = Some (js ''short'') then
        Some (max 60 (case minWords o' of None \<Rightarrow> 0 | Some n \<Rightarrow> n))
      else if style o' = Some (js ''medium'') then
        Some (max 160 (case minWords o' of None \<Rightarrow> 0 | Some n \<Rightarrow> n))
      else if style o' = Some (js ''long'') then
        Some (max 300 (case minWords o' of None \<Rightarrow> 0 | Some n \<Rightarrow> n))
      else None)"

definition sized_system :: "runtime \<Rightarrow> int \<Rightarrow> jsstring" where
  "sized_system rt t =
     js ''You are a meticulous research assistant. '' @
     js ''Write around '' @ ToString rt (JNum (of_int t)) @ js '' words if appropriate, '' @
     js ''but do NOT pad or fabricate when the question is simple. '' @
     js ''Prefer precision over verbosity.''"

definition system :: "runtime \<Rightarrow> opts \<Rightarrow> jsstring" where
  "system rt o' =
     (if truthy_string (style o') \<or> truthy_number (minWords o') then
        (case target o' of
           None \<Rightarrow> default_system
         | Some t \<Rightarrow> if t \<noteq> 0 then sized_system rt t else default_system)
      else default_system)"

definition request_for :: "runtime \<Rightarrow> env \<Rightarrow> jsstring \<Rightarrow> jsstring \<Rightarrow> jsstring \<Rightarrow> request" where
  "request_for rt e key sys query =
     \<lparr>req_url = PPLX_URL,
      req_method = js ''POST'',
      req_headers =
        [(js ''Authorization'', js ''Bearer '' @ key),
         (js ''Content-Type'', js ''application/json'')],
      req_body = JSON_stringify rt (JObj
        [(js ''model'', JStr (PPLX_MODEL e)),
         (js ''messages'', JArr
            [JObj [(js ''role'', JStr (js ''system'')), (js ''content'', JStr sys)],
             JObj [(js ''role'', JStr (js ''user'')), (js ''content'', JStr query)]]),
         (js ''temperature'', JNum (3 / 10))])\<rparr>"

definition extract_full :: "json \<Rightarrow> json" where
  "extract_full j =
     coalesce (opt_prop (opt_prop (opt_first (opt_prop (Some j) (js ''choices''))) (js ''message'')) (js ''content''))
       (coalesce (opt_prop (opt_first (opt_prop (Some j) (js ''choices''))) (js ''text'')) (JStr []))"

text \<open>
  The result is what the promise settles to, \<open>Inl\<close> the error thrown, together with
  the requests given to \<^verbatim>\<open>fetch\<close>, in order.
\<close>

definition askPerplexity ::
  "runtime \<Rightarrow> env \<Rightarrow> jsstring \<Rightarrow> opts \<Rightarrow> (js_error + answer) \<times> request list" where
  "askPerplexity rt e query o' =
     (if \<not> truthy_string (PPLX_API_KEY e) then
        (Inl (Error (js ''Missing PERPLEXITY_API_KEY'')), [])
      else
        let req = request_for rt e (case PPLX_API_KEY e of None \<Rightarrow> [] | Some k \<Rightarrow> k)
                    (system rt o') query
        in case fetch rt req of
             Rejected \<Rightarrow> (Inl TypeError, [req])
           | Resolved res \<Rightarrow>
               if \<not> res_ok res then
                 (Inl (Error (js ''Perplexity '' @ ToString rt (JNum (of_nat (res_status res)))
                         @ js '': '' @ (case res_text res of None \<Rightarrow> [] | Some txt \<Rightarrow> txt))),
                  [req])
               else
                 (case res_json res of
                    None \<Rightarrow> (Inl SyntaxError, [req])
                  | Some j \<Rightarrow>
                      (Inr \<lparr>full = extract_full j,
                            meta_model = opt_prop (Some j) (js ''model''),
                            meta_usage = opt_prop (Some j) (js ''usage'')\<rparr>,
                       [req])))"

section \<open>The tools\<close>

subsection \<open>\<^verbatim>\<open>encodeURIComponent\<close>\<close>

text \<open>
  Letters, digits and \<^verbatim>\<open>- _ . ! ~ * ' ( )\<close> are kept; every other code point is written
  as \<open>%XX\<close> for each byte of its UTF-8 form. A lone surrogate raises \<^verbatim>\<open>URIError\<close>.
\<close>

definition uriUnreserved :: "nat \<Rightarrow> bool" where
  "uriUnreserved cp \<longleftrightarrow>
     (0x41 \<le> cp \<and> cp \<le> 0x5A) \<or> (0x61 \<le> cp \<and> cp \<le> 0x7A) \<or> (0x30 \<le> cp \<and> cp \<le> 0x39)
     \<or> cp \<in> {0x2D, 0x5F, 0x2E, 0x21, 0x7E, 0x2A, 0x27, 0x28, 0x29}"

definition percent :: "8 word \<Rightarrow> jsstring" where
  "percent b =
     [0x25, js ''0123456789ABCDEF'' ! (unat b div 16), js ''0123456789ABCDEF'' ! (unat b mod 16)]"

definition encodeURIComponent :: "jsstring \<Rightarrow> js_error + jsstring" where
  "encodeURIComponent s =
     (if isWellFormed s then
        Inr (concat (map
          (\<lambda>c. case c of
                 None \<Rightarrow> []
               | Some cp \<Rightarrow>
                   if uriUnreserved cp then [unit16 cp] else concat (map percent (utf8_bytes cp)))
          (codePoints s)))
      else Inl URIError)"

subsection \<open>The handlers\<close>

text \<open>
  Each handler returns the text of the single content item of its result, or the error
  it throws, and the requests it gave to \<^verbatim>\<open>fetch\<close>. The search handler has no call
  of \<^verbatim>\<open>askPerplexity\<close> or \<^verbatim>\<open>fetch\<close> in its body.
\<close>

definition meta_json :: "answer \<Rightarrow> json" where
  "meta_json a =
     JObj ((case meta_model a of None \<Rightarrow> [] | Some m \<Rightarrow> [(js ''model'', m)]) @
           (case meta_usage a of None \<Rightarrow> [] | Some u \<Rightarrow> [(js ''usage'', u)]))"

definition answer_handler ::
  "runtime \<Rightarrow> env \<Rightarrow> jsstring \<Rightarrow> jsstring option \<Rightarrow> int option
     \<Rightarrow> (js_error + jsstring) \<times> request list" where
  "answer_handler rt e query sty min_words =
     (case askPerplexity rt e query \<lparr>style = sty, minWords = min_words\<rparr> of
        (Inl err, reqs) \<Rightarrow> (Inl err, reqs)
      | (Inr a, reqs) \<Rightarrow>
          (Inr (js ''<<<PPLX_RAW>>>\<newline>'' @ ToString rt (full a) @
                js ''\<newline><<<END_PPLX_RAW>>>\<newline>\<newline>[meta] '' @
                JSON_stringify rt (meta_json a)),
           reqs))"

definition search_handler :: "runtime \<Rightarrow> jsstring \<Rightarrow> (js_error + jsstring) \<times> request list" where
  "search_handler rt query =
     (case encodeURIComponent query of
        Inl err \<Rightarrow> (Inl err, [])
      | Inr q \<Rightarrow>
          (Inr (JSON_stringify rt (JObj
             [(js ''results'', JArr
                [JObj [(js ''id'', JStr (b64enc query)),
                       (js ''title'', JStr (js ''Perplexity: '' @ query)),
                       (js ''url'', JStr (js ''https://www.perplexity.ai/search?q='' @ q))]])])),
           []))"

definition fetch_handler ::
  "runtime \<Rightarrow> env \<Rightarrow> jsstring \<Rightarrow> (js_error + jsstring) \<times> request list" where
  "fetch_handler rt e ident =
     (let query = b64dec ident in
      case askPerplexity rt e query \<lparr>style = None, minWords = None\<rparr> of
        (Inl err, reqs) \<Rightarrow> (Inl err, reqs)
      | (Inr a, reqs) \<Rightarrow>
          (case encodeURIComponent query of
             Inl err \<Rightarrow> (Inl err, reqs)
           | Inr q \<Rightarrow>
               (Inr (JSON_stringify rt (JObj
                  [(js ''id'', JStr ident),
                   (js ''title'', JStr (js ''Perplexity: '' @ query)),
                   (js ''text'', full a),
                   (js ''url'', JStr (js ''https://www.perplexity.ai/search?q='' @ q)),
                   (js ''metadata'', JObj
                      [(js ''source'', JStr (js ''perplexity'')),
                       (js ''model'', JStr (PPLX_MODEL e))])])),
                reqs)))"

subsection \<open>The input schemas\<close>

text \<open>
  The zod schemas of the three tools. A schema takes the value found under a key
  (\<open>None\<close> when the key is absent) and gives the parsed value, or \<open>None\<close> when it
  reports an issue. \<^verbatim>\<open>z.string()\<close> accepts every string, the empty one too;
  \<^verbatim>\<open>.optional()\<close> accepts an absent value and nothing else in addition.
\<close>

definition z_string :: "json option \<Rightarrow> jsstring option" where
  "z_string v = (case v of Some (JStr s) \<Rightarrow> Some s | _ \<Rightarrow> None)"

definition z_enum :: "jsstring list \<Rightarrow> json option \<Rightarrow> jsstring option" where
  "z_enum vals v = (case v of Some (JStr s) \<Rightarrow> if s \<in> set vals then Some s else None | _ \<Rightarrow> None)"

definition z_number_int_positive :: "json option \<Rightarrow> int option" where
  "z_number_int_positive v =
     (case v of
        Some (JNum r) \<Rightarrow> if of_int \<lfloor>r\<rfloor> = r \<and> 0 < r then Some \<lfloor>r\<rfloor> else None
      | _ \<Rightarrow> None)"

definition z_optional :: "(json option \<Rightarrow> 'a option) \<Rightarrow> json option \<Rightarrow> 'a option option" where
  "z_optional p v = (case v of None \<Rightarrow> Some None | Some x \<Rightarrow> map_option Some (p v))"

record answer_args =
  arg_query :: jsstring
  arg_style :: "jsstring option"
  arg_min_words :: "int option"

definition answer_inputSchema :: "json option \<Rightarrow> answer_args option" where
  "answer_inputSchema args =
     (case args of
        Some (JObj kvs) \<Rightarrow>
          (case (z_string (map_of kvs (js ''query'')),
                 z_optional (z_enum [js ''short'', js ''medium'', js ''long''])
                   (map_of kvs (js ''style'')),
                 z_optional z_number_int_positive (map_of kvs (js ''min_words''))) of
             (Some q, Some s, Some m) \<Rightarrow>
               Some \<lparr>arg_query = q, arg_style = s, arg_min_words = m\<rparr>
           | _ \<Rightarrow> None)
      | _ \<Rightarrow> None)"

definition search_inputSchema :: "json option \<Rightarrow> jsstring option" where
  "search_inputSchema args =
     (case args of Some (JObj kvs) \<Rightarrow> z_string (map_of kvs (js ''query'')) | _ \<Rightarrow> None)"

definition fetch_inputSchema :: "json option \<Rightarrow> jsstring option" where
  "fetch_inputSchema args =
     (case args of Some (JObj kvs) \<Rightarrow> z_string (map_of kvs (js ''id'')) | _ \<Rightarrow> None)"

subsection \<open>Calling a tool\<close>

datatype tool_outcome =
  ToolNotFound
  | InvalidParams
  | ToolError js_error
  | ToolText jsstring

text \<open>The outcome of a handler as the outcome of the call.\<close>

definition settle :: "(js_error + jsstring) \<times> request list \<Rightarrow> tool_outcome \<times> request list" where
  "settle r = (case r of (Inl err, reqs) \<Rightarrow> (ToolError err, reqs) | (Inr txt, reqs) \<Rightarrow> (ToolText txt, reqs))"

text \<open>
  Modelled from the spec: the dispatch of a tool call is done by the MCP server library
  that \<^verbatim>\<open>registerTool\<close> hands the schema and the handler to; its code is not part of
  \<^verbatim>\<open>server.js\<close>. As the specification describes it, the arguments are checked against
  the input schema of the tool before the handler runs, a violation fails this call
  with a schema-validation error and the handler is not run, and an error thrown by the
  handler is reported as the failure of this call. The outcome is a value: the session
  goes on after it.
\<close>

definition callTool ::
  "runtime \<Rightarrow> env \<Rightarrow> jsstring \<Rightarrow> json option \<Rightarrow> tool_outcome \<times> request list" where
  "callTool rt e name args =
     (if name = js ''answer'' then
        (case answer_inputSchema args of
           None \<Rightarrow> (InvalidParams, [])
         | Some a \<Rightarrow> settle (answer_handler rt e (arg_query a) (arg_style a) (arg_min_words a)))
      else if name = js ''search'' then
        (case search_inputSchema args of
           None \<Rightarrow> (InvalidParams, [])
         | Some q \<Rightarrow> settle (search_handler rt q))
      else if name = js ''fetch'' then
        (case fetch_inputSchema args of
           None \<Rightarrow> (InvalidParams, [])
         | Some i \<Rightarrow> settle (fetch_handler rt e i))
      else (ToolNotFound, []))"

subsection \<open>Sample configurations\<close>

text \<open>
  Concrete environments and runtimes on which the theorems below are instantiated: an
  environment with and one without a credential, and a runtime whose upstream answers
  every request with a given status and parsed body. In this runtime a string converts
  to itself and a natural number to its decimal digits.
\<close>

fun decimal :: "nat \<Rightarrow> jsstring" where
  "decimal n =
     (if n < 10 then [unit16 (0x30 + n)] else decimal (n div 10) @ [unit16 (0x30 + n mod 10)])"

declare decimal.simps [simp del]

definition env_key :: env where
  "env_key = \<lparr>PERPLEXITY_API_KEY = Some (js ''pplx-key''), PERPLEXITY_MODEL = None\<rparr>"

definition env_no_key :: env where
  "env_no_key = \<lparr>PERPLEXITY_API_KEY = None, PERPLEXITY_MODEL = None\<rparr>"

definition rt_reply :: "nat \<Rightarrow> json option \<Rightarrow> runtime" where
  "rt_reply st body =
     \<lparr>JSON_stringify = (\<lambda>v. []),
      ToString = (\<lambda>v. case v of JNum r \<Rightarrow> decimal (nat \<lfloor>r\<rfloor>) | JStr s \<Rightarrow> s | _ \<Rightarrow> []),
      fetch = (\<lambda>req. Resolved \<lparr>res_status = st, res_text = Some (js ''busy''), res_json = body\<rparr>)\<rparr>"

text \<open>
  A second runtime writes JSON text: strings quoted and escaped, numbers in decimal
  notation, arrays and objects with their members in order, without white space. Its
  conversion to a string gives a string itself and a number in decimal notation.
\<close>

definition hex4 :: "16 word \<Rightarrow> jsstring" where
  "hex4 u =
     [js ''0123456789abcdef'' ! (unat u div 0x1000), js ''0123456789abcdef'' ! (unat u div 0x100 mod 0x10),
      js ''0123456789abcdef'' ! (unat u div 0x10 mod 0x10), js ''0123456789abcdef'' ! (unat u mod 0x10)]"

definition escape_unit :: "16 word \<Rightarrow> jsstring" where
  "escape_unit u =
     (if u = 0x22 then [0x5C, 0x22]
      else if u = 0x5C then [0x5C, 0x5C]
      else if u = 0x08 then [0x5C, 0x62]
      else if u = 0x09 then [0x5C, 0x74]
      else if u = 0x0A then [0x5C, 0x6E]
      else if u = 0x0C then [0x5C, 0x66]
      else if u = 0x0D then [0x5C, 0x72]
      else if u < 0x20 \<or> isLeadSurrogate u \<or> isTrailSurrogate u then [0x5C, 0x75] @ hex4 u
      else [u])"

fun quote_units :: "jsstring \<Rightarrow> jsstring" where
  "quote_units [] = []"
| "quote_units [u] = escape_unit u"
| "quote_units (u # v # us) =
     (if isLeadSurrogate u \<and> isTrailSurrogate v then u # v # quote_units us
      else escape_unit u @ quote_units (v # us))"

definition quote :: "jsstring \<Rightarrow> jsstring" where
  "quote s = [0x22] @ quote_units s @ [0x22]"

fun fraction_digits :: "nat \<Rightarrow> rat \<Rightarrow> jsstring" where
  "fraction_digits k r =
     (if k = 0 \<or> r = 0 then []
      else unit16 (0x30 + nat \<lfloor>r * 10\<rfloor>) # fraction_digits (k - 1) (r * 10 - of_int \<lfloor>r * 10\<rfloor>))"

declare fraction_digits.simps [simp del]

definition show_number :: "rat \<Rightarrow> jsstring" where
  "show_number r =
     (if r < 0 then [0x2D] else []) @ decimal (nat \<lfloor>\<bar>r\<bar>\<rfloor>) @
     (if \<bar>r\<bar> = of_int \<lfloor>\<bar>r\<bar>\<rfloor> then [] else 0x2E # fraction_digits 17 (\<bar>r\<bar> - of_int \<lfloor>\<bar>r\<bar>\<rfloor>))"

fun commas :: "jsstring list \<Rightarrow> jsstring" where
  "commas [] = []"
| "commas [x] = x"
| "commas (x # y # zs) = x @ [0x2C] @ commas (y # zs)"

fun stringify :: "json \<Rightarrow> jsstring" where
  "stringify JNull = js ''null''"
| "stringify (JBool b) = (if b then js ''true'' else js ''false'')"
| "stringify (JNum r) = show_number r"
| "stringify (JStr s) = quote s"
| "stringify (JArr vs) = [0x5B] @ commas (map stringify vs) @ [0x5D]"
| "stringify (JObj kvs) =
     [0x7B] @ commas (map (\<lambda>(k, v). quote k @ [0x3A] @ stringify v) kvs) @ [0x7D]"

definition rt_json :: "nat \<Rightarrow> json option \<Rightarrow> runtime" where
  "rt_json st body =
     \<lparr>JSON_stringify = stringify,
      ToString = (\<lambda>v. case v of JStr s \<Rightarrow> s | JNum r \<Rightarrow> show_number r | _ \<Rightarrow> stringify v),
      fetch = (\<lambda>req. Resolved \<lparr>res_status = st, res_text = Some (js ''busy''), res_json = body\<rparr>)\<rparr>"

definition reply_hello :: json where
  "reply_hello =
     JObj [(js ''model'', JStr (js ''sonar'')),
           (js ''choices'', JArr [JObj [(js ''message'', JObj [(js ''content'', JStr (js ''hello''))])]])]"

section \<open>The codec: encoding and decoding are inverse\<close>

subsection \<open>Bytes and code units\<close>

lemma unat_byte_less: "unat (b :: 8 word) < 256"
  using unsigned_less [of b, where ?'a = nat] by simp

lemma unat_byte: "n < 256 \<Longrightarrow> unat (byte n) = n"
  by (simp add: byte_def unat_of_nat)

lemma byte_unat: "byte (unat b) = b"
  by (simp add: byte_def)

lemma unat_unit_less: "unat (u :: 16 word) < 0x10000"
  using unsigned_less [of u, where ?'a = nat] by simp

lemma unit16_unat: "unit16 (unat u) = u"
  by (simp add: unit16_def)

subsection \<open>Base64url\<close>

lemma octet_first: "b < 256 \<Longrightarrow> a div 4 * 4 + (a mod 4 * 16 + b div 16) div 16 = (a::nat)"
  by (simp add: less_mult_imp_div_less)

lemma octet_second:
  "b < 256 \<Longrightarrow> c < 256 \<Longrightarrow>
   (a mod 4 * 16 + b div 16) mod 16 * 16 + (b mod 16 * 4 + c div 64) div 4 = (b::nat)"
  by (simp add: less_mult_imp_div_less)

lemma octet_third: "c < 256 \<Longrightarrow> (b mod 16 * 4 + c div 64) mod 4 * 64 + c mod 64 = (c::nat)"
  by (simp add: less_mult_imp_div_less)

lemma octets_sextets: "octets (sextets bs) = bs"
proof (induction bs rule: sextets.induct)
  case (1 a b c bs)
  have "unat a div 4 * 4 + (unat a mod 4 * 16 + unat b div 16) div 16 = unat a"
    by (rule octet_first [OF unat_byte_less])
  moreover have "(unat a mod 4 * 16 + unat b div 16) mod 16 * 16
      + (unat b mod 16 * 4 + unat c div 64) div 4 = unat b"
    by (rule octet_second [OF unat_byte_less unat_byte_less])
  moreover have "(unat b mod 16 * 4 + unat c div 64) mod 4 * 64 + unat c mod 64 = unat c"
    by (rule octet_third [OF unat_byte_less])
  ultimately show ?case using 1 by (simp add: byte_unat)
next
  case (2 a b)
  have "unat a div 4 * 4 + (unat a mod 4 * 16 + unat b div 16) div 16 = unat a"
    by (rule octet_first [OF unat_byte_less])
  moreover have "(unat a mod 4 * 16 + unat b div 16) mod 16 * 16
      + (unat b mod 16 * 4 + 0 div 64) div 4 = unat b"
    by (rule octet_second [OF unat_byte_less]) simp
  ultimately show ?case by (simp add: byte_unat)
next
  case (3 a)
  have "unat a div 4 * 4 + (unat a mod 4 * 16 + 0 div 16) div 16 = unat a"
    by (rule octet_first) simp
  then show ?case by (simp add: byte_unat)
next
  case 4
  show ?case by simp
qed

lemma sextets_bound: "v \<in> set (sextets bs) \<Longrightarrow> v < 64"
proof (induction bs arbitrary: v rule: sextets.induct)
  case (1 a b c bs)
  have "unat a div 4 < 64" "(unat a mod 4) * 16 + unat b div 16 < 64"
    "(unat b mod 16) * 4 + unat c div 64 < 64" "unat c mod 64 < 64"
    using unat_byte_less [of a] unat_byte_less [of b] unat_byte_less [of c] by simp_all
  with 1 show ?case by auto
next
  case (2 a b)
  have "unat a div 4 < 64" "(unat a mod 4) * 16 + unat b div 16 < 64"
    "(unat b mod 16) * 4 < 64"
    using unat_byte_less [of a] unat_byte_less [of b] by simp_all
  with 2 show ?case by auto
next
  case (3 a)
  have "unat a div 4 < 64" "(unat a mod 4) * 16 < 64"
    using unat_byte_less [of a] by simp_all
  with 3 show ?case by auto
next
  case 4
  then show ?case by simp
qed

lemma table_all: "list_all (\<lambda>i. unbase64 (ucast (base64url_table ! i)) = Some i) [0..<64]"
  by (simp add: upt_rec base64url_table_def js_def unit16_def unbase64_def)

lemma table_unbase64: "i < 64 \<Longrightarrow> unbase64 (ucast (base64url_table ! i)) = Some i"
  using table_all by (simp add: list_all_iff)

lemma scan_table:
  "(\<And>v. v \<in> set vs \<Longrightarrow> v < 64) \<Longrightarrow>
   scan_sextets (map (\<lambda>i. base64url_table ! i) vs) = vs"
  by (induction vs) (simp_all add: table_unbase64)

lemma base64_inverse: "Buffer_from_base64url (toString_base64url bs) = bs"
  by (simp add: Buffer_from_base64url_def toString_base64url_def scan_table sextets_bound
      octets_sextets)

subsection \<open>UTF-8: single steps of the decoder\<close>

lemma lead_low: "x < m \<Longrightarrow> (q * m + x) mod m = (x::nat)"
  by simp

lemma step1:
  "unat b = n \<Longrightarrow> lo \<le> n \<Longrightarrow> n \<le> hi \<Longrightarrow>
   utf8_decode cp 1 lo hi (b # bs) = (cp * 0x40 + n mod 0x40) # utf8_decode 0 0 0x80 0xBF bs"
  by simp

lemma step2:
  "unat b = n \<Longrightarrow> lo \<le> n \<Longrightarrow> n \<le> hi \<Longrightarrow>
   utf8_decode cp 2 lo hi (b # bs) = utf8_decode (cp * 0x40 + n mod 0x40) 1 0x80 0xBF bs"
  by simp

lemma step3:
  "unat b = n \<Longrightarrow> lo \<le> n \<Longrightarrow> n \<le> hi \<Longrightarrow>
   utf8_decode cp 3 lo hi (b # bs) = utf8_decode (cp * 0x40 + n mod 0x40) 2 0x80 0xBF bs"
  by simp

lemma lead1:
  "unat b = n \<Longrightarrow> n < 0x80 \<Longrightarrow>
   utf8_decode 0 0 0x80 0xBF (b # bs) = n # utf8_decode 0 0 0x80 0xBF bs"
  by simp

lemma lead2:
  "unat b = 0xC0 + q \<Longrightarrow> 2 \<le> q \<Longrightarrow> q < 32 \<Longrightarrow>
   utf8_decode 0 0 0x80 0xBF (b # bs) = utf8_decode q 1 0x80 0xBF bs"
  using lead_low [of q 32 6] by simp

lemma lead3:
  "unat b = 0xE0 + q \<Longrightarrow> q < 16 \<Longrightarrow>
   utf8_decode 0 0 0x80 0xBF (b # bs) =
   utf8_decode q 2 (if q = 0 then 0xA0 else 0x80) (if q = 13 then 0x9F else 0xBF) bs"
  using lead_low [of q 16 14] by simp

lemma lead4:
  "unat b = 0xF0 + q \<Longrightarrow> q < 5 \<Longrightarrow>
   utf8_decode 0 0 0x80 0xBF (b # bs) =
   utf8_decode q 3 (if q = 0 then 0x90 else 0x80) (if q = 4 then 0x8F else 0xBF) bs"
  using lead_low [of q 8 30] by simp

lemma decode_Nil: "utf8_decode 0 0 0x80 0xBF [] = []"
  by simp

declare utf8_decode.simps [simp del]

subsection \<open>UTF-8: arithmetic of the byte groups\<close>

lemma join3: "(n div 0x1000 * 0x40 + n div 0x40 mod 0x40) * 0x40 + n mod 0x40 = (n::nat)"
proof -
  have "n div 0x1000 = n div 0x40 div 0x40" by (simp add: div_mult2_eq)
  then have "n div 0x1000 * 0x40 + n div 0x40 mod 0x40 = n div 0x40" by simp
  then show ?thesis by simp
qed

lemma join4:
  "((n div 0x40000 * 0x40 + n div 0x1000 mod 0x40) * 0x40 + n div 0x40 mod 0x40) * 0x40
     + n mod 0x40 = (n::nat)"
proof -
  have "n div 0x40000 = n div 0x1000 div 0x40" by (simp add: div_mult2_eq)
  then have h: "n div 0x40000 * 0x40 + n div 0x1000 mod 0x40 = n div 0x1000" by simp
  show ?thesis unfolding h by (rule join3)
qed

lemma second_bounds:
  fixes q :: nat
  assumes "q div 0x40 = k" "k * 0x40 + a \<le> q" "q < k * 0x40 + b"
  shows "a \<le> q mod 0x40 \<and> q mod 0x40 < b"
proof -
  have "q div 0x40 * 0x40 + q mod 0x40 = q" by (rule div_mult_mod_eq)
  with assms show ?thesis by simp
qed

lemma second3_low:
  fixes n :: nat
  assumes "0x800 \<le> n" "n div 0x1000 = 0"
  shows "0x20 \<le> n div 0x40 mod 0x40"
proof -
  have "n div 0x40 div 0x40 = 0" using assms(2) by (simp add: div_mult2_eq)
  moreover have "0x20 \<le> n div 0x40" using assms(1) by simp
  ultimately show ?thesis
    using second_bounds [of "n div 0x40" 0 "0x20" "Suc (n div 0x40)"] by simp
qed

lemma second3_high:
  fixes n :: nat
  assumes "n < 0xD800" "n div 0x1000 = 13"
  shows "n div 0x40 mod 0x40 < 0x20"
proof -
  have "n div 0x40 div 0x40 = 13" using assms(2) by (simp add: div_mult2_eq)
  moreover have "n div 0x40 < 13 * 0x40 + 0x20" using assms(1) by simp
  moreover have "13 * 0x40 \<le> n div 0x40" using assms(2) by simp
  ultimately show ?thesis using second_bounds [of "n div 0x40" 13 0 "0x20"] by simp
qed

lemma second4_low:
  fixes n :: nat
  assumes "0x10000 \<le> n" "n div 0x40000 = 0"
  shows "0x10 \<le> n div 0x1000 mod 0x40"
proof -
  have "n div 0x1000 div 0x40 = 0" using assms(2) by (simp add: div_mult2_eq)
  moreover have "0x10 \<le> n div 0x1000" using assms(1) by simp
  ultimately show ?thesis
    using second_bounds [of "n div 0x1000" 0 "0x10" "Suc (n div 0x1000)"] by simp
qed

lemma second4_high:
  fixes n :: nat
  assumes "n < 0x110000" "n div 0x40000 = 4"
  shows "n div 0x1000 mod 0x40 < 0x10"
proof -
  have "n div 0x1000 div 0x40 = 4" using assms(2) by (simp add: div_mult2_eq)
  moreover have "n div 0x1000 < 4 * 0x40 + 0x10" using assms(1) by simp
  moreover have "4 * 0x40 \<le> n div 0x1000" using assms(2) by simp
  ultimately show ?thesis using second_bounds [of "n div 0x1000" 4 0 "0x10"] by simp
qed

subsection \<open>UTF-8: the bytes of a scalar value decode to it\<close>

lemma decode_one:
  assumes "cp < 0x80"
  shows "utf8_decode 0 0 0x80 0xBF (utf8_bytes cp @ bs) = cp # utf8_decode 0 0 0x80 0xBF bs"
proof -
  have u: "unat (byte cp) = cp" by (rule unat_byte) (use assms in simp)
  have "utf8_bytes cp @ bs = byte cp # bs" using assms by (simp add: utf8_bytes_def)
  then show ?thesis by (simp only: lead1 [OF u assms])
qed

lemma decode_two:
  assumes "0x80 \<le> cp" "cp < 0x800"
  shows "utf8_decode 0 0 0x80 0xBF (utf8_bytes cp @ bs) = cp # utf8_decode 0 0 0x80 0xBF bs"
proof -
  define q where "q = cp div 0x40"
  define y where "y = cp mod 0x40"
  have q: "2 \<le> q" "q < 32" using assms by (simp_all add: q_def)
  have y: "y < 64" by (simp add: y_def)
  have join: "q * 0x40 + y = cp" by (simp add: q_def y_def)
  have bytes: "utf8_bytes cp @ bs = byte (0xC0 + q) # byte (0x80 + y) # bs"
    using assms by (simp add: utf8_bytes_def q_def y_def)
  have u1: "unat (byte (0xC0 + q)) = 0xC0 + q" by (rule unat_byte) (use q in simp)
  have u2: "unat (byte (0x80 + y)) = 0x80 + y" by (rule unat_byte) (use y in simp)
  have m2: "(0x80 + y) mod 0x40 = y" using lead_low [of y 64 2] y by simp
  have lo2: "0x80 \<le> 0x80 + y" by simp
  have hi2: "0x80 + y \<le> 0xBF" using y by simp
  have "utf8_decode 0 0 0x80 0xBF (utf8_bytes cp @ bs) =
        utf8_decode 0 0 0x80 0xBF (byte (0xC0 + q) # byte (0x80 + y) # bs)"
    by (simp only: bytes)
  also have "\<dots> = utf8_decode q 1 0x80 0xBF (byte (0x80 + y) # bs)"
    by (rule lead2 [OF u1 q])
  also have "\<dots> = (q * 0x40 + (0x80 + y) mod 0x40) # utf8_decode 0 0 0x80 0xBF bs"
    by (rule step1 [OF u2 lo2 hi2])
  finally show ?thesis by (simp only: m2 join)
qed

lemma decode_three:
  assumes "0x800 \<le> cp" "cp < 0x10000" "cp < 0xD800 \<or> 0xDFFF < cp"
  shows "utf8_decode 0 0 0x80 0xBF (utf8_bytes cp @ bs) = cp # utf8_decode 0 0 0x80 0xBF bs"
proof -
  define q where "q = cp div 0x1000"
  define x where "x = cp div 0x40 mod 0x40"
  define y where "y = cp mod 0x40"
  have q: "q < 16" using assms(2) by (simp add: q_def)
  have x: "x < 64" by (simp add: x_def)
  have y: "y < 64" by (simp add: y_def)
  have lo: "q = 0 \<Longrightarrow> 0x20 \<le> x"
    unfolding q_def x_def using assms(1) by (rule second3_low)
  have hi: "x < 0x20" if e: "q = 13"
  proof -
    from e have "cp < 0xE000" by (simp add: q_def)
    with assms(3) have "cp < 0xD800" by simp
    then show ?thesis using e unfolding q_def x_def by (rule second3_high)
  qed
  have join: "(q * 0x40 + x) * 0x40 + y = cp"
    unfolding q_def x_def y_def by (rule join3)
  have bytes: "utf8_bytes cp = [byte (0xE0 + q), byte (0x80 + x), byte (0x80 + y)]"
    using assms(1,2) by (simp add: utf8_bytes_def q_def x_def y_def)
  have u1: "unat (byte (0xE0 + q)) = 0xE0 + q" by (rule unat_byte) (use q in simp)
  have u2: "unat (byte (0x80 + x)) = 0x80 + x" by (rule unat_byte) (use x in simp)
  have u3: "unat (byte (0x80 + y)) = 0x80 + y" by (rule unat_byte) (use y in simp)
  have m2: "(0x80 + x) mod 0x40 = x" using lead_low [of x 64 2] x by simp
  have m3: "(0x80 + y) mod 0x40 = y" using lead_low [of y 64 2] y by simp
  have lo2: "(if q = 0 then 0xA0 else 0x80) \<le> 0x80 + x" using lo by auto
  have hi2: "0x80 + x \<le> (if q = 13 then 0x9F else 0xBF)" using hi x by auto
  have lo3: "0x80 \<le> 0x80 + y" by simp
  have hi3: "0x80 + y \<le> 0xBF" using y by simp
  have "utf8_decode 0 0 0x80 0xBF (utf8_bytes cp @ bs) =
        utf8_decode 0 0 0x80 0xBF (byte (0xE0 + q) # byte (0x80 + x) # byte (0x80 + y) # bs)"
    by (simp add: bytes)
  also have "\<dots> =
        utf8_decode q 2 (if q = 0 then 0xA0 else 0x80) (if q = 13 then 0x9F else 0xBF)
          (byte (0x80 + x) # byte (0x80 + y) # bs)"
    by (rule lead3 [OF u1 q])
  also have "\<dots> =
        utf8_decode (q * 0x40 + (0x80 + x) mod 0x40) 1 0x80 0xBF (byte (0x80 + y) # bs)"
    by (rule step2 [OF u2 lo2 hi2])
  also have "\<dots> = ((q * 0x40 + (0x80 + x) mod 0x40) * 0x40 + (0x80 + y) mod 0x40)
        # utf8_decode 0 0 0x80 0xBF bs"
    by (rule step1 [OF u3 lo3 hi3])
  finally show ?thesis by (simp only: m2 m3 join)
qed

lemma decode_four:
  assumes "0x10000 \<le> cp" "cp < 0x110000"
  shows "utf8_decode 0 0 0x80 0xBF (utf8_bytes cp @ bs) = cp # utf8_decode 0 0 0x80 0xBF bs"
proof -
  define q where "q = cp div 0x40000"
  define w where "w = cp div 0x1000 mod 0x40"
  define x where "x = cp div 0x40 mod 0x40"
  define y where "y = cp mod 0x40"
  have q: "q < 5" using assms(2) by (simp add: q_def)
  have w: "w < 64" by (simp add: w_def)
  have x: "x < 64" by (simp add: x_def)
  have y: "y < 64" by (simp add: y_def)
  have lo: "q = 0 \<Longrightarrow> 0x10 \<le> w"
    unfolding q_def w_def using assms(1) by (rule second4_low)
  have hi: "q = 4 \<Longrightarrow> w < 0x10"
    unfolding q_def w_def using assms(2) by (rule second4_high)
  have join: "((q * 0x40 + w) * 0x40 + x) * 0x40 + y = cp"
    unfolding q_def w_def x_def y_def by (rule join4)
  have bytes: "utf8_bytes cp =
      [byte (0xF0 + q), byte (0x80 + w), byte (0x80 + x), byte (0x80 + y)]"
    using assms(1) by (simp add: utf8_bytes_def q_def w_def x_def y_def)
  have u1: "unat (byte (0xF0 + q)) = 0xF0 + q" by (rule unat_byte) (use q in simp)
  have u2: "unat (byte (0x80 + w)) = 0x80 + w" by (rule unat_byte) (use w in simp)
  have u3: "unat (byte (0x80 + x)) = 0x80 + x" by (rule unat_byte) (use x in simp)
  have u4: "unat (byte (0x80 + y)) = 0x80 + y" by (rule unat_byte) (use y in simp)
  have m2: "(0x80 + w) mod 0x40 = w" using lead_low [of w 64 2] w by simp
  have m3: "(0x80 + x) mod 0x40 = x" using lead_low [of x 64 2] x by simp
  have m4: "(0x80 + y) mod 0x40 = y" using lead_low [of y 64 2] y by simp
  have lo2: "(if q = 0 then 0x90 else 0x80) \<le> 0x80 + w" using lo by auto
  have hi2: "0x80 + w \<le> (if q = 4 then 0x8F else 0xBF)" using hi w by auto
  have lo3: "0x80 \<le> 0x80 + x" and lo4: "0x80 \<le> 0x80 + y" by simp_all
  have hi3: "0x80 + x \<le> 0xBF" using x by simp
  have hi4: "0x80 + y \<le> 0xBF" using y by simp
  have "utf8_decode 0 0 0x80 0xBF (utf8_bytes cp @ bs) =
        utf8_decode 0 0 0x80 0xBF
          (byte (0xF0 + q) # byte (0x80 + w) # byte (0x80 + x) # byte (0x80 + y) # bs)"
    by (simp add: bytes)
  also have "\<dots> =
        utf8_decode q 3 (if q = 0 then 0x90 else 0x80) (if q = 4 then 0x8F else 0xBF)
          (byte (0x80 + w) # byte (0x80 + x) # byte (0x80 + y) # bs)"
    by (rule lead4 [OF u1 q])
  also have "\<dots> = utf8_decode (q * 0x40 + (0x80 + w) mod 0x40) 2 0x80 0xBF
          (byte (0x80 + x) # byte (0x80 + y) # bs)"
    by (rule step3 [OF u2 lo2 hi2])
  also have "\<dots> =
        utf8_decode ((q * 0x40 + (0x80 + w) mod 0x40) * 0x40 + (0x80 + x) mod 0x40)
          1 0x80 0xBF (byte (0x80 + y) # bs)"
    by (rule step2 [OF u3 lo3 hi3])
  also have "\<dots> =
        (((q * 0x40 + (0x80 + w) mod 0x40) * 0x40 + (0x80 + x) mod 0x40) * 0x40
           + (0x80 + y) mod 0x40) # utf8_decode 0 0 0x80 0xBF bs"
    by (rule step1 [OF u4 lo4 hi4])
  finally show ?thesis by (simp only: m2 m3 m4 join)
qed

lemma decode_scalar:
  assumes "isScalar cp"
  shows "utf8_decode 0 0 0x80 0xBF (utf8_bytes cp @ bs) = cp # utf8_decode 0 0 0x80 0xBF bs"
proof -
  consider "cp < 0x80" | "0x80 \<le> cp" "cp < 0x800" | "0x800 \<le> cp" "cp < 0x10000"
    | "0x10000 \<le> cp" by linarith
  then show ?thesis
  proof cases
    case 1 then show ?thesis by (rule decode_one)
  next
    case 2 then show ?thesis by (rule decode_two)
  next
    case 3 then show ?thesis using assms decode_three by (simp add: isScalar_def)
  next
    case 4 then show ?thesis using assms decode_four by (simp add: isScalar_def)
  qed
qed

lemma decode_scalars:
  "(\<And>cp. cp \<in> set cps \<Longrightarrow> isScalar cp) \<Longrightarrow>
   utf8_decode 0 0 0x80 0xBF (concat (map utf8_bytes cps)) = cps"
  by (induction cps) (simp_all add: decode_scalar decode_Nil)

subsection \<open>UTF-16: surrogates\<close>

lemma lead_nat: "isLeadSurrogate u \<longleftrightarrow> 0xD800 \<le> unat u \<and> unat u \<le> 0xDBFF"
  by (simp add: isLeadSurrogate_def word_le_nat_alt)

lemma trail_nat: "isTrailSurrogate u \<longleftrightarrow> 0xDC00 \<le> unat u \<and> unat u \<le> 0xDFFF"
  by (simp add: isTrailSurrogate_def word_le_nat_alt)

lemma scalar_unit: "\<not> isLeadSurrogate u \<Longrightarrow> \<not> isTrailSurrogate u \<Longrightarrow> isScalar (unat u)"
  using unat_unit_less [of u] by (auto simp add: lead_nat trail_nat isScalar_def)

lemma pair_range:
  fixes m n :: nat
  assumes "0xD800 \<le> m" "m \<le> 0xDBFF" "0xDC00 \<le> n" "n \<le> 0xDFFF"
  shows "0x10000 + (m - 0xD800) * 0x400 + (n - 0xDC00) < 0x110000"
proof -
  have "m - 0xD800 \<le> 0x3FF" using assms(2) by linarith
  then have "(m - 0xD800) * 0x400 \<le> 0x3FF * 0x400" by (rule mult_le_mono1)
  moreover have "n - 0xDC00 \<le> 0x3FF" using assms(4) by linarith
  ultimately show ?thesis by linarith
qed

lemma scalar_pair:
  "isLeadSurrogate u \<Longrightarrow> isTrailSurrogate v \<Longrightarrow>
   isScalar (0x10000 + (unat u - 0xD800) * 0x400 + (unat v - 0xDC00))"
  using pair_range [of "unat u" "unat v"] by (simp add: lead_nat trail_nat isScalar_def)

lemma units_single:
  "\<not> isLeadSurrogate u \<Longrightarrow> \<not> isTrailSurrogate u \<Longrightarrow> utf16_units (unat u) = [u]"
  using unat_unit_less [of u] by (simp add: utf16_units_def unit16_unat)

lemma units_pair:
  assumes "isLeadSurrogate u" "isTrailSurrogate v"
  shows "utf16_units (0x10000 + (unat u - 0xD800) * 0x400 + (unat v - 0xDC00)) = [u, v]"
proof -
  define a where "a = unat u - 0xD800"
  define b where "b = unat v - 0xDC00"
  have a: "0xD800 + a = unat u" using assms(1) by (simp add: a_def lead_nat)
  have "0xDC00 \<le> unat v" "unat v \<le> 0xDFFF" using assms(2) by (simp_all add: trail_nat)
  then have b: "0xDC00 + b = unat v" "b < 0x400" unfolding b_def by linarith+
  have "(a * 0x400 + b) div 0x400 = a" "(a * 0x400 + b) mod 0x400 = b" using b(2) by simp_all
  then show ?thesis
    by (simp add: utf16_units_def a_def [symmetric] b_def [symmetric] a b(1) unit16_unat)
qed

lemma scalar_replacement: "isScalar 0xFFFD"
  by (simp add: isScalar_def)

lemma codePoints_scalar: "Some cp \<in> set (codePoints s) \<Longrightarrow> isScalar cp"
  by (induction s arbitrary: cp rule: codePoints.induct)
     (auto simp add: scalar_unit scalar_pair split: if_splits)

lemma utf8_decode_from:
  "utf8_decode 0 0 0x80 0xBF (Buffer_from_utf8 s) =
   map (\<lambda>c. case c of None \<Rightarrow> 0xFFFD | Some cp \<Rightarrow> cp) (codePoints s)"
proof -
  have "Buffer_from_utf8 s =
      concat (map utf8_bytes
        (map (\<lambda>c. case c of None \<Rightarrow> 0xFFFD | Some cp \<Rightarrow> cp) (codePoints s)))"
    by (simp add: Buffer_from_utf8_def comp_def)
  moreover have "isScalar cp"
    if "cp \<in> set (map (\<lambda>c. case c of None \<Rightarrow> 0xFFFD | Some cp \<Rightarrow> cp) (codePoints s))"
    for cp
    using that by (auto simp add: scalar_replacement codePoints_scalar split: option.splits)
  ultimately show ?thesis by (simp only: decode_scalars)
qed

lemma units_codePoints:
  "isWellFormed s \<Longrightarrow>
   concat (map utf16_units
     (map (\<lambda>c. case c of None \<Rightarrow> 0xFFFD | Some cp \<Rightarrow> cp) (codePoints s))) = s"
  unfolding isWellFormed_def
  by (induction s rule: codePoints.induct)
     (auto simp add: units_single units_pair split: if_splits)

lemma utf8_inverse: "isWellFormed s \<Longrightarrow> toString_utf8 (Buffer_from_utf8 s) = s"
  by (simp only: toString_utf8_def utf8_decode_from units_codePoints)

lemma wellFormed_cats: "isWellFormed (js ''cats'')"
  by (simp add: isWellFormed_def js_def unit16_def isLeadSurrogate_def isTrailSurrogate_def)

section \<open>Decoding never fails and gives a well-formed string\<close>

subsection \<open>The decoder only produces scalar values\<close>

lemma cont_low: "0x80 \<le> n \<Longrightarrow> n \<le> 0xBF \<Longrightarrow> n mod 0x40 = n - (0x80::nat)"
proof -
  assume a: "0x80 \<le> n" "n \<le> 0xBF"
  then have "n - 0x80 < 0x40" by linarith
  then have "(2 * 0x40 + (n - 0x80)) mod 0x40 = n - 0x80" by (rule lead_low)
  moreover have "2 * 0x40 + (n - 0x80) = n" using a by linarith
  ultimately show ?thesis by simp
qed

lemma inv_start: "decoder_inv 0 0 0x80 0xBF"
  by (simp add: decoder_inv_def)

lemma lead_value:
  fixes n :: nat
  assumes "k * m \<le> n" "n < k * m + m"
  shows "n mod m = n - k * m"
proof -
  have "n - k * m < m" using assms by linarith
  then have "(k * m + (n - k * m)) mod m = n - k * m" by (rule lead_low)
  moreover have "k * m + (n - k * m) = n" using assms(1) by linarith
  ultimately show ?thesis by simp
qed

lemma inv_lead2: "0xC2 \<le> n \<Longrightarrow> n \<le> 0xDF \<Longrightarrow> decoder_inv (n mod 0x20) 1 0x80 0xBF"
proof -
  assume a: "0xC2 \<le> n" "n \<le> 0xDF"
  define q where "q = n - 0xC0"
  have "n mod 0x20 = n - 6 * 0x20" by (rule lead_value) (use a in simp_all)
  then have m: "n mod 0x20 = q" by (simp add: q_def)
  have "2 \<le> q" "q < 32" unfolding q_def using a by linarith+
  then show ?thesis unfolding m by (simp add: decoder_inv_def)
qed

lemma inv_lead3:
  "0xE0 \<le> n \<Longrightarrow> n \<le> 0xEF \<Longrightarrow>
   decoder_inv (n mod 0x10) 2 (if n = 0xE0 then 0xA0 else 0x80) (if n = 0xED then 0x9F else 0xBF)"
proof -
  assume a: "0xE0 \<le> n" "n \<le> 0xEF"
  define q where "q = n - 0xE0"
  have "n mod 0x10 = n - 14 * 0x10" by (rule lead_value) (use a in simp_all)
  then have m: "n mod 0x10 = q" by (simp add: q_def)
  have n: "n = 0xE0 + q" unfolding q_def using a by linarith
  have q: "q < 16" unfolding q_def using a by linarith
  show ?thesis unfolding m using q by (simp add: decoder_inv_def n)
qed

lemma inv_lead4:
  "0xF0 \<le> n \<Longrightarrow> n \<le> 0xF4 \<Longrightarrow>
   decoder_inv (n mod 8) 3 (if n = 0xF0 then 0x90 else 0x80) (if n = 0xF4 then 0x8F else 0xBF)"
proof -
  assume a: "0xF0 \<le> n" "n \<le> 0xF4"
  define q where "q = n - 0xF0"
  have "n mod 8 = n - 30 * 8" by (rule lead_value) (use a in simp_all)
  then have m: "n mod 8 = q" by (simp add: q_def)
  have n: "n = 0xF0 + q" unfolding q_def using a by linarith
  have q: "q < 5" unfolding q_def using a by linarith
  show ?thesis unfolding m using q by (simp add: decoder_inv_def n)
qed

lemma inv_last:
  assumes "decoder_inv cp 1 lo hi" "lo \<le> n" "n \<le> hi"
  shows "isScalar (cp * 0x40 + n mod 0x40)"
proof -
  define y where "y = n mod 0x40"
  have y: "y < 0x40" by (simp add: y_def)
  from assms(1) have c: "2 \<le> cp" "cp < 0x4400" "cp < 0x360 \<or> 0x380 \<le> cp"
    by (simp_all add: decoder_inv_def)
  have "cp * 0x40 + y < 0x110000" using c(2) y by linarith
  moreover have "cp * 0x40 + y < 0xD800 \<or> 0xDFFF < cp * 0x40 + y" using c(3) y by linarith
  ultimately show ?thesis unfolding y_def [symmetric] isScalar_def by simp
qed

lemma inv_cont:
  assumes "decoder_inv cp need lo hi" "need \<noteq> 0" "need \<noteq> 1" "lo \<le> n" "n \<le> hi"
  shows "decoder_inv (cp * 0x40 + n mod 0x40) (need - 1) 0x80 0xBF"
proof -
  define y where "y = n - 0x80"
  from assms(1,2,3) consider
    (a) "need = 2" "lo = 0x80" "hi = 0xBF" "0x10 \<le> cp" "cp < 0x110"
    | (b) "need = 2" "cp < 0x10" "lo = (if cp = 0 then 0xA0 else 0x80)"
        "hi = (if cp = 13 then 0x9F else 0xBF)"
    | (c) "need = 3" "cp < 5" "lo = (if cp = 0 then 0x90 else 0x80)"
        "hi = (if cp = 4 then 0x8F else 0xBF)"
    unfolding decoder_inv_def by blast
  then show ?thesis
  proof cases
    case a
    have b: "0x80 \<le> n" "n \<le> 0xBF" using assms(4,5) a by simp_all
    have m: "n mod 0x40 = y" unfolding y_def using b by (rule cont_low)
    have y: "y < 0x40" unfolding y_def using b by linarith
    have "2 \<le> cp * 0x40 + y" "cp * 0x40 + y < 0x4400" "0x380 \<le> cp * 0x40 + y"
      using a(4,5) y by linarith+
    then show ?thesis unfolding m by (simp add: decoder_inv_def a(1))
  next
    case b
    have lo: "0x80 \<le> lo" and hi: "hi \<le> 0xBF" by (simp_all add: b)
    have n: "0x80 \<le> n" "n \<le> 0xBF" using assms(4,5) lo hi by linarith+
    have m: "n mod 0x40 = y" unfolding y_def using n by (rule cont_low)
    have y: "y < 0x40" unfolding y_def using n by linarith
    have y0: "0x20 \<le> y" if "cp = 0"
    proof -
      have "0xA0 \<le> n" using assms(4) that by (simp add: b)
      then show ?thesis unfolding y_def by linarith
    qed
    have y13: "y < 0x20" if "cp = 13"
    proof -
      have "n \<le> 0x9F" using assms(5) that by (simp add: b)
      then show ?thesis unfolding y_def by linarith
    qed
    have "2 \<le> cp * 0x40 + y"
    proof (cases "cp = 0")
      case True then show ?thesis using y0 by simp
    next
      case False then show ?thesis by linarith
    qed
    moreover have "cp * 0x40 + y < 0x4400" using b(2) y by linarith
    moreover have "cp * 0x40 + y < 0x360 \<or> 0x380 \<le> cp * 0x40 + y"
    proof -
      consider "cp < 13" | "cp = 13" | "13 < cp" by linarith
      then show ?thesis
      proof cases
        case 1 then show ?thesis using y by linarith
      next
        case 2 then show ?thesis using y13 by simp
      next
        case 3 then show ?thesis by linarith
      qed
    qed
    ultimately show ?thesis unfolding m by (simp add: decoder_inv_def b(1))
  next
    case c
    have lo: "0x80 \<le> lo" and hi: "hi \<le> 0xBF" by (simp_all add: c)
    have n: "0x80 \<le> n" "n \<le> 0xBF" using assms(4,5) lo hi by linarith+
    have m: "n mod 0x40 = y" unfolding y_def using n by (rule cont_low)
    have y: "y < 0x40" unfolding y_def using n by linarith
    have y0: "0x10 \<le> y" if "cp = 0"
    proof -
      have "0x90 \<le> n" using assms(4) that by (simp add: c)
      then show ?thesis unfolding y_def by linarith
    qed
    have y4: "y < 0x10" if "cp = 4"
    proof -
      have "n \<le> 0x8F" using assms(5) that by (simp add: c)
      then show ?thesis unfolding y_def by linarith
    qed
    have "0x10 \<le> cp * 0x40 + y"
    proof (cases "cp = 0")
      case True then show ?thesis using y0 by simp
    next
      case False then show ?thesis by linarith
    qed
    moreover have "cp * 0x40 + y < 0x110"
    proof (cases "cp = 4")
      case True then show ?thesis using y4 by simp
    next
      case False then show ?thesis using c(2) y by linarith
    qed
    ultimately show ?thesis unfolding m by (simp add: decoder_inv_def c(1))
  qed
qed

lemma decoded_scalar:
  "decoder_inv cp need lo hi \<Longrightarrow> x \<in> set (utf8_decode cp need lo hi bs) \<Longrightarrow> isScalar x"
proof (induction cp need lo hi bs arbitrary: x rule: utf8_decode.induct)
  case (1 cp need lo hi)
  then show ?case by (auto simp add: utf8_decode.simps scalar_replacement split: if_splits)
next
  case (2 cp need lo hi b bs)
  define n where "n = unat b"
  have n: "n < 256" unfolding n_def by (rule unat_byte_less)
  note eq = utf8_decode.simps(2) [of cp need lo hi b bs]
  note mem = "2.prems"(2) [unfolded eq, folded n_def]
  note IH = "2.IH" [folded n_def]
  show ?case
  proof (cases "need = 0")
    case True
    consider (ascii) "n \<le> 0x7F"
      | (two) "\<not> n \<le> 0x7F" "0xC2 \<le> n \<and> n \<le> 0xDF"
      | (three) "\<not> n \<le> 0x7F" "\<not> (0xC2 \<le> n \<and> n \<le> 0xDF)" "0xE0 \<le> n \<and> n \<le> 0xEF"
      | (four) "\<not> n \<le> 0x7F" "\<not> (0xC2 \<le> n \<and> n \<le> 0xDF)" "\<not> (0xE0 \<le> n \<and> n \<le> 0xEF)"
          "0xF0 \<le> n \<and> n \<le> 0xF4"
      | (bad) "\<not> n \<le> 0x7F" "\<not> (0xC2 \<le> n \<and> n \<le> 0xDF)" "\<not> (0xE0 \<le> n \<and> n \<le> 0xEF)"
          "\<not> (0xF0 \<le> n \<and> n \<le> 0xF4)"
      by blast
    then show ?thesis
    proof cases
      case ascii
      from mem True ascii have "x = n \<or> x \<in> set (utf8_decode 0 0 0x80 0xBF bs)" by simp
      moreover have "isScalar n" using ascii by (simp add: isScalar_def)
      ultimately show ?thesis using IH(1) [OF True ascii inv_start] by blast
    next
      case two
      from mem True two have "x \<in> set (utf8_decode (n mod 0x20) 1 0x80 0xBF bs)" by simp
      then show ?thesis using IH(2) [OF True two] inv_lead2 [of n] two(2) by blast
    next
      case three
      from mem True three have "x \<in> set (utf8_decode (n mod 0x10) 2
          (if n = 0xE0 then 0xA0 else 0x80) (if n = 0xED then 0x9F else 0xBF) bs)" by simp
      then show ?thesis using IH(3) [OF True three] inv_lead3 [of n] three(3) by blast
    next
      case four
      from mem True four have "x \<in> set (utf8_decode (n mod 8) 3
          (if n = 0xF0 then 0x90 else 0x80) (if n = 0xF4 then 0x8F else 0xBF) bs)" by simp
      then show ?thesis using IH(4) [OF True four] inv_lead4 [of n] four(4) by blast
    next
      case bad
      from mem True bad have "x = 0xFFFD \<or> x \<in> set (utf8_decode 0 0 0x80 0xBF bs)" by simp
      then show ?thesis using IH(5) [OF True bad inv_start] scalar_replacement by blast
    qed
  next
    case False
    show ?thesis
    proof (cases "n < lo \<or> hi < n")
      case True
      from mem False True have "x = 0xFFFD \<or> x \<in> set (utf8_decode 0 0 0x80 0xBF (b # bs))"
        by simp
      then show ?thesis using IH(6) [OF False True inv_start] scalar_replacement by blast
    next
      case out: False
      then have range: "lo \<le> n" "n \<le> hi" by simp_all
      show ?thesis
      proof (cases "need = 1")
        case True
        from mem False out True
        have "x = cp * 0x40 + n mod 0x40 \<or> x \<in> set (utf8_decode 0 0 0x80 0xBF bs)" by simp
        moreover have "isScalar (cp * 0x40 + n mod 0x40)"
          using "2.prems"(1) range unfolding True by (rule inv_last)
        ultimately show ?thesis using IH(7) [OF False out True inv_start] by blast
      next
        case more: False
        from mem False out more
        have "x \<in> set (utf8_decode (cp * 0x40 + n mod 0x40) (need - 1) 0x80 0xBF bs)" by simp
        moreover have "decoder_inv (cp * 0x40 + n mod 0x40) (need - 1) 0x80 0xBF"
          using "2.prems"(1) False more range by (rule inv_cont)
        ultimately show ?thesis using IH(8) [OF False out more] by blast
      qed
    qed
  qed
qed

subsection \<open>The string made from scalar values is well formed\<close>

lemma unat_unit16: "n < 0x10000 \<Longrightarrow> unat (unit16 n) = n"
  by (simp add: unit16_def unat_of_nat)

lemma codePoints_single:
  "\<not> isLeadSurrogate u \<Longrightarrow> \<not> isTrailSurrogate u \<Longrightarrow>
   codePoints (u # s) = Some (unat u) # codePoints s"
  by (cases s) simp_all

lemma codePoints_pair:
  "isLeadSurrogate u \<Longrightarrow> isTrailSurrogate v \<Longrightarrow>
   codePoints (u # v # s) =
   Some (0x10000 + (unat u - 0xD800) * 0x400 + (unat v - 0xDC00)) # codePoints s"
  by simp

lemma codePoints_units:
  assumes "isScalar cp"
  shows "codePoints (utf16_units cp @ s) = Some cp # codePoints s"
proof (cases "cp < 0x10000")
  case True
  have u: "unat (unit16 cp) = cp" using True by (rule unat_unit16)
  have "\<not> isLeadSurrogate (unit16 cp)" "\<not> isTrailSurrogate (unit16 cp)"
    using assms True by (auto simp add: lead_nat trail_nat u isScalar_def)
  then have "codePoints (unit16 cp # s) = Some (unat (unit16 cp)) # codePoints s"
    by (rule codePoints_single)
  then show ?thesis using True by (simp add: utf16_units_def u)
next
  case False
  define a where "a = (cp - 0x10000) div 0x400"
  define b where "b = (cp - 0x10000) mod 0x400"
  have "cp - 0x10000 < 0x100000" using assms False by (simp add: isScalar_def)
  then have a: "a < 0x400" unfolding a_def by simp
  have b: "b < 0x400" unfolding b_def by simp
  have "a * 0x400 + b = cp - 0x10000" unfolding a_def b_def by simp
  then have join: "0x10000 + a * 0x400 + b = cp" using False by linarith
  have u1: "unat (unit16 (0xD800 + a)) = 0xD800 + a" by (rule unat_unit16) (use a in simp)
  have u2: "unat (unit16 (0xDC00 + b)) = 0xDC00 + b" by (rule unat_unit16) (use b in simp)
  have l: "isLeadSurrogate (unit16 (0xD800 + a))" using a by (simp add: lead_nat u1)
  have t: "isTrailSurrogate (unit16 (0xDC00 + b))" using b by (simp add: trail_nat u2)
  have "codePoints (unit16 (0xD800 + a) # unit16 (0xDC00 + b) # s) =
      Some (0x10000 + (unat (unit16 (0xD800 + a)) - 0xD800) * 0x400
            + (unat (unit16 (0xDC00 + b)) - 0xDC00)) # codePoints s"
    using l t by (rule codePoints_pair)
  then have "codePoints (unit16 (0xD800 + a) # unit16 (0xDC00 + b) # s) = Some cp # codePoints s"
    by (simp add: u1 u2 join)
  then show ?thesis using False by (simp add: utf16_units_def a_def b_def)
qed

lemma codePoints_scalars:
  "(\<And>cp. cp \<in> set cps \<Longrightarrow> isScalar cp) \<Longrightarrow>
   codePoints (concat (map utf16_units cps)) = map Some cps"
  by (induction cps) (simp_all add: codePoints_units)

lemma toString_utf8_wellFormed: "isWellFormed (toString_utf8 bs)"
proof -
  have "codePoints (toString_utf8 bs) = map Some (utf8_decode 0 0 0x80 0xBF bs)"
    unfolding toString_utf8_def
    by (rule codePoints_scalars) (rule decoded_scalar [OF inv_start])
  then show ?thesis by (auto simp add: isWellFormed_def)
qed

lemma b64dec_wellFormed: "isWellFormed (b64dec s)"
  by (simp add: b64dec_def toString_utf8_wellFormed)

section \<open>The gateway and the tools\<close>

lemma js_eq_simps:
  "js ''answer'' \<noteq> js ''search''" "js ''answer'' \<noteq> js ''fetch''" "js ''search'' \<noteq> js ''fetch''"
  "js ''search'' \<noteq> js ''answer''" "js ''fetch'' \<noteq> js ''answer''" "js ''fetch'' \<noteq> js ''search''"
  by (simp_all add: js_def unit16_def)

lemma askPerplexity_no_key:
  "PERPLEXITY_API_KEY e = None \<or> PERPLEXITY_API_KEY e = Some [] \<Longrightarrow>
   askPerplexity rt e query o' = (Inl (Error (js ''Missing PERPLEXITY_API_KEY'')), [])"
  by (auto simp add: askPerplexity_def PPLX_API_KEY_def truthy_string_def)

lemma encodeURIComponent_b64dec: "\<exists>u. encodeURIComponent (b64dec s) = Inr u"
  by (simp add: encodeURIComponent_def b64dec_wellFormed)

lemma fetch_handler_requests:
  "snd (fetch_handler rt e ident) =
   snd (askPerplexity rt e (b64dec ident) \<lparr>style = None, minWords = None\<rparr>)"
  by (auto simp add: fetch_handler_def Let_def split: prod.splits sum.splits)

lemma fetch_handler_error:
  "askPerplexity rt e (b64dec ident) \<lparr>style = None, minWords = None\<rparr> = (Inl err, reqs) \<Longrightarrow>
   fetch_handler rt e ident = (Inl err, reqs)"
  by (simp add: fetch_handler_def)

lemma answer_handler_error:
  "askPerplexity rt e query \<lparr>style = sty, minWords = mw\<rparr> = (Inl err, reqs) \<Longrightarrow>
   answer_handler rt e query sty mw = (Inl err, reqs)"
  by (simp add: answer_handler_def)

lemma settle_error: "settle (Inl err, reqs) = (ToolError err, reqs)"
  by (simp add: settle_def)

lemma askPerplexity_not_ok:
  assumes "PERPLEXITY_API_KEY e = Some k" "k \<noteq> []"
    and "fetch rt (request_for rt e k (system rt o') query) = Resolved res"
    and "\<not> res_ok res"
  shows "askPerplexity rt e query o' =
    (Inl (Error (js ''Perplexity '' @ ToString rt (JNum (of_nat (res_status res))) @ js '': ''
            @ (case res_text res of None \<Rightarrow> [] | Some txt \<Rightarrow> txt))),
     [request_for rt e k (system rt o') query])"
  using assms by (simp add: askPerplexity_def PPLX_API_KEY_def truthy_string_def)

lemma system_no_opts: "system rt \<lparr>style = None, minWords = None\<rparr> = default_system"
  by (simp add: system_def truthy_string_def truthy_number_def)

lemma coalesce_nullish: "nullish v \<Longrightarrow> coalesce v d = d"
  by (auto simp add: nullish_def)

lemma extract_full_nullish:
  "nullish (opt_prop (opt_prop (opt_first (opt_prop (Some j) (js ''choices''))) (js ''message''))
      (js ''content'')) \<Longrightarrow>
   nullish (opt_prop (opt_first (opt_prop (Some j) (js ''choices''))) (js ''text'')) \<Longrightarrow>
   extract_full j = JStr []"
  by (simp add: extract_full_def coalesce_nullish)

lemma extract_full_no_choices:
  "opt_first (opt_prop (Some j) (js ''choices'')) = None \<Longrightarrow> extract_full j = JStr []"
  by (simp add: extract_full_def)

lemma askPerplexity_ok:
  assumes "PERPLEXITY_API_KEY e = Some k" "k \<noteq> []"
    and "fetch rt (request_for rt e k (system rt o') query) = Resolved res"
    and "res_ok res"
  shows "askPerplexity rt e query o' =
    (case res_json res of
       None \<Rightarrow> (Inl SyntaxError, [request_for rt e k (system rt o') query])
     | Some j \<Rightarrow>
         (Inr \<lparr>full = extract_full j, meta_model = opt_prop (Some j) (js ''model''),
               meta_usage = opt_prop (Some j) (js ''usage'')\<rparr>,
          [request_for rt e k (system rt o') query]))"
  using assms by (simp add: askPerplexity_def PPLX_API_KEY_def truthy_string_def Let_def)

lemma env_key_simps:
  "PERPLEXITY_API_KEY env_key = Some (js ''pplx-key'')" "js ''pplx-key'' \<noteq> []"
  by (simp_all add: env_key_def js_def)

lemma search_inputSchema_query:
  "search_inputSchema (Some (JObj [(js ''query'', JStr q)])) = Some q"
  by (simp add: search_inputSchema_def z_string_def)

lemma encodeURIComponent_cats: "encodeURIComponent (js ''cats'') = Inr (js ''cats'')"
  by (simp add: encodeURIComponent_def wellFormed_cats)
     (simp add: js_def unit16_def isLeadSurrogate_def isTrailSurrogate_def uriUnreserved_def)

lemma z_string_None: "(\<forall>s. v \<noteq> Some (JStr s)) \<Longrightarrow> z_string v = None"
  by (auto simp add: z_string_def split: option.splits json.splits)

lemma answer_inputSchema_query:
  "(\<forall>s. map_of kvs (js ''query'') \<noteq> Some (JStr s)) \<Longrightarrow>
   answer_inputSchema (Some (JObj kvs)) = None"
  by (simp add: answer_inputSchema_def z_string_None)

lemma answer_inputSchema_style:
  assumes "map_of kvs (js ''style'') = Some v"
    and "v \<notin> {JStr (js ''short''), JStr (js ''medium''), JStr (js ''long'')}"
  shows "answer_inputSchema (Some (JObj kvs)) = None"
proof -
  have "z_enum [js ''short'', js ''medium'', js ''long''] (Some v) = None"
    using assms(2) by (auto simp add: z_enum_def split: json.splits)
  then show ?thesis
    by (simp add: answer_inputSchema_def z_optional_def assms(1) split: option.splits)
qed

lemma answer_inputSchema_min_words:
  assumes "map_of kvs (js ''min_words'') = Some v"
    and "\<forall>n. 0 < n \<longrightarrow> v \<noteq> JNum (of_int n)"
  shows "answer_inputSchema (Some (JObj kvs)) = None"
proof -
  have "z_number_int_positive (Some v) = None"
  proof (cases v)
    case (JNum r)
    show ?thesis
    proof (cases "of_int \<lfloor>r\<rfloor> = r \<and> 0 < r")
      case True
      then have e: "of_int \<lfloor>r\<rfloor> = r" and p: "0 < r" by (rule conjunct1, rule conjunct2)
      from p have "0 < (of_int \<lfloor>r\<rfloor> :: rat)" by (simp only: e)
      then have "0 < \<lfloor>r\<rfloor>" by (simp only: of_int_0_less_iff)
      moreover have "v = JNum (of_int \<lfloor>r\<rfloor>)" by (simp only: JNum e)
      ultimately show ?thesis using assms(2) by blast
    next
      case False
      then show ?thesis using JNum by (simp add: z_number_int_positive_def)
    qed
  qed (simp_all add: z_number_int_positive_def)
  then show ?thesis
    by (simp add: answer_inputSchema_def z_optional_def assms(1) split: option.splits)
qed

lemma callTool_invalid:
  "answer_inputSchema args = None \<Longrightarrow> callTool rt e (js ''answer'') args = (InvalidParams, [])"
  "search_inputSchema args = None \<Longrightarrow> callTool rt e (js ''search'') args = (InvalidParams, [])"
  "fetch_inputSchema args = None \<Longrightarrow> callTool rt e (js ''fetch'') args = (InvalidParams, [])"
  by (simp_all add: callTool_def js_eq_simps)

lemma style_names:
  "js ''short'' \<noteq> []" "js ''medium'' \<noteq> []" "js ''long'' \<noteq> []"
  "js ''short'' \<noteq> js ''medium''" "js ''short'' \<noteq> js ''long''" "js ''medium'' \<noteq> js ''long''"
  "js ''medium'' \<noteq> js ''short''" "js ''long'' \<noteq> js ''short''" "js ''long'' \<noteq> js ''medium''"
  by (simp_all add: js_def unit16_def)

text \<open>With a style given, the target is the larger of the floor of the style and \<^verbatim>\<open>minWords\<close>.\<close>

lemma system_styled:
  assumes "sty \<in> {js ''short'', js ''medium'', js ''long''}"
    and "fl = (if sty = js ''short'' then 60 else if sty = js ''medium'' then 160 else 300)"
  shows "system rt \<lparr>style = Some sty, minWords = mw\<rparr> =
         sized_system rt (max fl (case mw of None \<Rightarrow> 0 | Some n \<Rightarrow> n))"
proof -
  have t: "target \<lparr>style = Some sty, minWords = mw\<rparr> =
      Some (max fl (case mw of None \<Rightarrow> 0 | Some n \<Rightarrow> n))"
    using assms by (auto simp add: target_def style_names)
  have "max fl (case mw of None \<Rightarrow> 0 | Some n \<Rightarrow> n) \<noteq> 0"
    using assms by (auto simp add: max_def)
  moreover have "truthy_string (Some sty)"
    using assms(1) style_names(1-3) by (auto simp add: truthy_string_def)
  ultimately show ?thesis by (simp add: system_def t)
qed

lemma scan_garbage:
  "scan_sextets (js ''not-valid-base64!!'') =
     [39, 40, 45, 62, 47, 26, 37, 34, 29, 62, 27, 26, 44, 30, 58, 56]"
  by (simp add: js_def unit16_def unbase64_def)

lemma bytes_garbage:
  "Buffer_from_base64url (js ''not-valid-base64!!'') =
     [0x9E, 0x8B, 0x7E, 0xBD, 0xA9, 0x62, 0x77, 0xE6, 0xDA, 0xB1, 0xEE, 0xB8]"
  by (simp add: Buffer_from_base64url_def scan_garbage byte_def)

lemma b64dec_garbage:
  "b64dec (js ''not-valid-base64!!'') =
     [0xFFFD, 0xFFFD, 0x7E, 0xFFFD, 0xFFFD, 0x62, 0x77, 0xFFFD, 0x6B1, 0xFFFD]"
  unfolding b64dec_def bytes_garbage
  by (simp add: toString_utf8_def utf8_decode.simps utf16_units_def unit16_def)

lemma askPerplexity_with_key:
  assumes "PERPLEXITY_API_KEY e = Some k" "k \<noteq> []"
  shows "snd (askPerplexity rt e query o') = [request_for rt e k (system rt o') query]"
  using assms
  by (simp add: askPerplexity_def PPLX_API_KEY_def truthy_string_def Let_def
      split: fetch_outcome.splits option.splits)

lemma fetch_inputSchema_id: "fetch_inputSchema (Some (JObj [(js ''id'', JStr s)])) = Some s"
  by (simp add: fetch_inputSchema_def z_string_def)

lemma settle_snd: "snd (settle r) = snd r"
  by (simp add: settle_def split: prod.splits sum.splits)

lemma key_names:
  "js ''metadata'' \<noteq> js ''id''" "js ''metadata'' \<noteq> js ''title''" "js ''metadata'' \<noteq> js ''text''"
  "js ''metadata'' \<noteq> js ''url''" "js ''model'' \<noteq> js ''source''"
  by (simp_all add: js_def unit16_def)

lemma fetch_handler_success:
  assumes "fst (fetch_handler rt e ident) = Inr out"
  shows "\<exists>a u. fst (askPerplexity rt e (b64dec ident) \<lparr>style = None, minWords = None\<rparr>) = Inr a
      \<and> encodeURIComponent (b64dec ident) = Inr u
      \<and> out = JSON_stringify rt (JObj
          [(js ''id'', JStr ident),
           (js ''title'', JStr (js ''Perplexity: '' @ b64dec ident)),
           (js ''text'', full a),
           (js ''url'', JStr (js ''https://www.perplexity.ai/search?q='' @ u)),
           (js ''metadata'', JObj
              [(js ''source'', JStr (js ''perplexity'')),
               (js ''model'', JStr (PPLX_MODEL e))])])"
  using assms
  by (auto simp add: fetch_handler_def Let_def split: prod.splits sum.splits)

lemma reply_hello_full: "extract_full reply_hello = JStr (js ''hello'')"
  by (simp add: extract_full_def reply_hello_def js_def unit16_def)

lemma askPerplexity_hello:
  "askPerplexity (rt_reply 200 (Some reply_hello)) env_key query \<lparr>style = None, minWords = None\<rparr> =
     (Inr \<lparr>full = JStr (js ''hello''),
           meta_model = opt_prop (Some reply_hello) (js ''model''),
           meta_usage = opt_prop (Some reply_hello) (js ''usage'')\<rparr>,
      [request_for (rt_reply 200 (Some reply_hello)) env_key (js ''pplx-key'') default_system query])"
proof -
  have ok: "res_ok \<lparr>res_status = 200, res_text = Some (js ''busy''), res_json = Some reply_hello\<rparr>"
    by (simp add: res_ok_def)
  have f: "fetch (rt_reply 200 (Some reply_hello))
      (request_for (rt_reply 200 (Some reply_hello)) env_key (js ''pplx-key'')
         (system (rt_reply 200 (Some reply_hello)) \<lparr>style = None, minWords = None\<rparr>) query) =
      Resolved \<lparr>res_status = 200, res_text = Some (js ''busy''), res_json = Some reply_hello\<rparr>"
    by (simp add: rt_reply_def)
  show ?thesis
    using askPerplexity_ok [OF env_key_simps f ok]
    by (simp add: reply_hello_full system_no_opts)
qed

lemma fetch_handler_hello:
  "\<exists>out. fst (fetch_handler (rt_reply 200 (Some reply_hello)) env_key ident) = Inr out"
  using encodeURIComponent_b64dec [of ident]
  by (auto simp add: fetch_handler_def Let_def askPerplexity_hello)

lemma scan_sextets_lenient:
  "scan_sextets s =
   map (\<lambda>u. the (unbase64 (ucast u)))
     (filter (\<lambda>u. unbase64 (ucast u) \<noteq> None)
        (takeWhile (\<lambda>u. (ucast u :: 8 word) \<noteq> 0x3D) s))"
proof (induction s)
  case Nil
  show ?case by simp
next
  case (Cons u us)
  have pad: "unbase64 (0x3D :: 8 word) = None" by (simp add: unbase64_def)
  show ?case
  proof (cases "unbase64 (ucast u)")
    case None
    then show ?thesis using Cons by simp
  next
    case (Some v)
    then have "(ucast u :: 8 word) \<noteq> 0x3D" using pad by auto
    then show ?thesis using Some Cons by simp
  qed
qed

lemma fetch_handler_fails_iff:
  "fst (fetch_handler rt e ident) = Inl err \<longleftrightarrow>
   fst (askPerplexity rt e (b64dec ident) \<lparr>style = None, minWords = None\<rparr>) = Inl err"
  using encodeURIComponent_b64dec [of ident]
  by (auto simp add: fetch_handler_def Let_def split: prod.splits sum.splits)

lemma utf8_cats: "Buffer_from_utf8 (js ''cats'') = [0x63, 0x61, 0x74, 0x73]"
  by (simp add: Buffer_from_utf8_def js_def unit16_def isLeadSurrogate_def isTrailSurrogate_def
      utf8_bytes_def byte_def)

lemma b64enc_cats: "b64enc (js ''cats'') = js ''Y2F0cw''"
  unfolding b64enc_def utf8_cats
  by (simp add: toString_base64url_def base64url_table_def js_def unit16_def)

lemma garbage_uri:
  "encodeURIComponent [0xFFFD, 0xFFFD, 0x7E, 0xFFFD, 0xFFFD, 0x62, 0x77, 0xFFFD, 0x6B1, 0xFFFD] =
   Inr (js ''%EF%BF%BD%EF%BF%BD~%EF%BF%BD%EF%BF%BDbw%EF%BF%BD%DA%B1%EF%BF%BD'')"
  by (simp add: encodeURIComponent_def isWellFormed_def isLeadSurrogate_def isTrailSurrogate_def
      uriUnreserved_def utf8_bytes_def byte_def percent_def js_def unit16_def)

lemma decimal_503: "decimal 503 = js ''503''"
  by (simp add: decimal.simps js_def unit16_def)

lemma answer_inputSchema_min_words_only:
  "answer_inputSchema (Some (JObj [(js ''query'', JStr (js ''x'')), (js ''min_words'', JNum 500)])) =
     Some \<lparr>arg_query = js ''x'', arg_style = None, arg_min_words = Some 500\<rparr>"
  by (simp add: answer_inputSchema_def z_string_def z_optional_def z_number_int_positive_def
      js_def unit16_def)

lemma answer_handler_requests:
  "snd (answer_handler rt e query sty mw) =
   snd (askPerplexity rt e query \<lparr>style = sty, minWords = mw\<rparr>)"
  by (auto simp add: answer_handler_def split: prod.splits sum.splits)

lemma wrong_type_content:
  "extract_full (JObj [(js ''choices'', JArr [JObj [(js ''message'', JObj [(js ''content'', JNum 42)])]])])
     = JNum 42"
  by (simp add: extract_full_def js_def unit16_def)


subsection \<open>Facts for the statements on decoding, on the search result and on the request\<close>

lemma scan_sextets_filter:
  "scan_sextets (filter (\<lambda>u. unbase64 (ucast u) \<noteq> None \<or> (ucast u :: 8 word) = 0x3D) s) =
   scan_sextets s"
  by (induction s) (auto split: option.splits)

lemma b64dec_ignores:
  "b64dec (filter (\<lambda>u. unbase64 (ucast u) \<noteq> None \<or> (ucast u :: 8 word) = 0x3D) s) = b64dec s"
  unfolding b64dec_def Buffer_from_base64url_def scan_sextets_filter ..

lemma request_for_explicit:
  "request_for rt e k sys query =
     \<lparr>req_url = js ''https://api.perplexity.ai/chat/completions'',
      req_method = js ''POST'',
      req_headers =
        [(js ''Authorization'', js ''Bearer '' @ k),
         (js ''Content-Type'', js ''application/json'')],
      req_body = JSON_stringify rt (JObj
        [(js ''model'', JStr (PPLX_MODEL e)),
         (js ''messages'', JArr
            [JObj [(js ''role'', JStr (js ''system'')), (js ''content'', JStr sys)],
             JObj [(js ''role'', JStr (js ''user'')), (js ''content'', JStr query)]]),
         (js ''temperature'', JNum (3 / 10))])\<rparr>"
  by (simp add: request_for_def PPLX_URL_def)

lemma fetch_handler_no_key:
  "PERPLEXITY_API_KEY e = None \<or> PERPLEXITY_API_KEY e = Some [] \<Longrightarrow>
   fetch_handler rt e ident = (Inl (Error (js ''Missing PERPLEXITY_API_KEY'')), [])"
  by (rule fetch_handler_error) (rule askPerplexity_no_key)

lemma show_number_temperature: "show_number (3 / 10) = js ''0.3''"
proof -
  have f: "\<lfloor>3 / 10 :: rat\<rfloor> = 0" by (simp add: floor_eq_iff)
  have a: "\<bar>3 / 10 :: rat\<bar> = 3 / 10" by simp
  have d: "fraction_digits 17 (3 / 10) = [0x33]"
    by (simp add: fraction_digits.simps [of 17] fraction_digits.simps [of 16] unit16_def)
  show ?thesis
    unfolding show_number_def a f
    by (simp add: d decimal.simps js_def unit16_def)
qed

lemmas json_text_simps =
  quote_def escape_unit_def hex4_def isLeadSurrogate_def isTrailSurrogate_def js_def unit16_def

lemma table_length: "length base64url_table = 64"
  by (simp add: base64url_table_def js_def)

lemma b64enc_explicit:
  "b64enc s = map (\<lambda>i. base64url_table ! i) (sextets (Buffer_from_utf8 s))"
  by (simp add: b64enc_def toString_base64url_def)

lemma b64enc_alphabet: "set (b64enc s) \<subseteq> set base64url_table"
proof
  fix c
  assume "c \<in> set (b64enc s)"
  then obtain i where "i \<in> set (sextets (Buffer_from_utf8 s))" "c = base64url_table ! i"
    by (auto simp add: b64enc_explicit)
  then show "c \<in> set base64url_table"
    using sextets_bound [of i] by (simp add: table_length)
qed

lemma b64dec_b64enc_inverse: "isWellFormed s \<Longrightarrow> b64dec (b64enc s) = s"
  by (simp only: b64dec_def b64enc_def base64_inverse utf8_inverse)

lemma search_handler_URIError: "\<not> isWellFormed s \<Longrightarrow> search_handler rt s = (Inl URIError, [])"
  by (simp add: search_handler_def encodeURIComponent_def)

lemma search_handler_requests: "snd (search_handler rt s) = []"
  by (simp add: search_handler_def split: sum.splits)

lemma b64dec_lenient:
  "b64dec s =
   toString_utf8 (octets (map (\<lambda>u. the (unbase64 (ucast u)))
     (filter (\<lambda>u. unbase64 (ucast u) \<noteq> None)
        (takeWhile (\<lambda>u. (ucast u :: 8 word) \<noteq> 0x3D) s))))"
  unfolding b64dec_def Buffer_from_base64url_def scan_sextets_lenient [symmetric] ..

lemma units_replacement: "utf16_units 0xFFFD = [0xFFFD]"
  by (simp add: utf16_units_def unit16_def)

lemma decode_bad_start:
  assumes "(0x80 \<le> unat b \<and> unat b \<le> 0xC1) \<or> 0xF5 \<le> unat b"
  shows "utf8_decode 0 0 0x80 0xBF (b # bs) = 0xFFFD # utf8_decode 0 0 0x80 0xBF bs"
  using assms by (auto simp add: utf8_decode.simps(2) [of 0 0 "0x80" "0xBF" b bs])

lemma decode_lead:
  assumes "0xC2 \<le> unat b" "unat b \<le> 0xF4"
  shows "\<exists>cp need lo hi. need \<noteq> 0 \<and> 0x80 \<le> lo \<and> hi \<le> 0xBF
      \<and> utf8_decode 0 0 0x80 0xBF (b # bs) = utf8_decode cp need lo hi bs"
proof -
  consider "unat b \<le> 0xDF" | "0xE0 \<le> unat b" "unat b \<le> 0xEF" | "0xF0 \<le> unat b"
    by linarith
  then show ?thesis
  proof cases
    case 1
    then have "utf8_decode 0 0 0x80 0xBF (b # bs) = utf8_decode (unat b mod 0x20) 1 0x80 0xBF bs"
      using assms by (simp add: utf8_decode.simps(2) [of 0 0 "0x80" "0xBF" b bs])
    then show ?thesis by (intro exI [of _ "unat b mod 0x20"] exI [of _ 1] exI [of _ "0x80"] exI [of _ "0xBF"]) simp
  next
    case 2
    then have "utf8_decode 0 0 0x80 0xBF (b # bs) = utf8_decode (unat b mod 0x10) 2
        (if unat b = 0xE0 then 0xA0 else 0x80) (if unat b = 0xED then 0x9F else 0xBF) bs"
      by (simp add: utf8_decode.simps(2) [of 0 0 "0x80" "0xBF" b bs])
    then show ?thesis
      by (intro exI [of _ "unat b mod 0x10"] exI [of _ 2]
          exI [of _ "if unat b = 0xE0 then 0xA0 else 0x80"]
          exI [of _ "if unat b = 0xED then 0x9F else 0xBF"]) simp
  next
    case 3
    then have "utf8_decode 0 0 0x80 0xBF (b # bs) = utf8_decode (unat b mod 8) 3
        (if unat b = 0xF0 then 0x90 else 0x80) (if unat b = 0xF4 then 0x8F else 0xBF) bs"
      using assms by (simp add: utf8_decode.simps(2) [of 0 0 "0x80" "0xBF" b bs])
    then show ?thesis
      by (intro exI [of _ "unat b mod 8"] exI [of _ 3]
          exI [of _ "if unat b = 0xF0 then 0x90 else 0x80"]
          exI [of _ "if unat b = 0xF4 then 0x8F else 0xBF"]) simp
  qed
qed

lemma decode_lead_end:
  assumes "0xC2 \<le> unat b" "unat b \<le> 0xF4"
  shows "utf8_decode 0 0 0x80 0xBF [b] = [0xFFFD]"
proof -
  obtain cp need lo hi where "need \<noteq> 0"
    "utf8_decode 0 0 0x80 0xBF [b] = utf8_decode cp need lo hi []"
    using decode_lead [OF assms, of "[]"] by blast
  then show ?thesis by (simp add: utf8_decode.simps(1))
qed

lemma decode_lead_break:
  assumes "0xC2 \<le> unat b" "unat b \<le> 0xF4" "unat c < 0x80 \<or> 0xBF < unat c"
  shows "utf8_decode 0 0 0x80 0xBF (b # c # bs) = 0xFFFD # utf8_decode 0 0 0x80 0xBF (c # bs)"
proof -
  obtain cp need lo hi where s: "need \<noteq> 0" "0x80 \<le> lo" "hi \<le> 0xBF"
    "utf8_decode 0 0 0x80 0xBF (b # c # bs) = utf8_decode cp need lo hi (c # bs)"
    using decode_lead [OF assms(1,2), of "c # bs"] by blast
  have "unat c < lo \<or> hi < unat c" using assms(3) s(2,3) by linarith
  then have "utf8_decode cp need lo hi (c # bs) = 0xFFFD # utf8_decode 0 0 0x80 0xBF (c # bs)"
    using s(1) by (simp add: utf8_decode.simps(2) [of cp need lo hi c bs])
  then show ?thesis by (simp only: s(4))
qed

lemma toString_utf8_replacement:
  "((0x80 \<le> unat b \<and> unat b \<le> 0xC1) \<or> 0xF5 \<le> unat b \<longrightarrow>
      toString_utf8 (b # bs) = 0xFFFD # toString_utf8 bs)
   \<and> (0xC2 \<le> unat b \<and> unat b \<le> 0xF4 \<longrightarrow> toString_utf8 [b] = [0xFFFD])
   \<and> (0xC2 \<le> unat b \<and> unat b \<le> 0xF4 \<and> (unat c < 0x80 \<or> 0xBF < unat c) \<longrightarrow>
      toString_utf8 (b # c # bs) = 0xFFFD # toString_utf8 (c # bs))"
  using decode_bad_start [of b bs] decode_lead_end [of b] decode_lead_break [of b c bs]
  by (simp add: toString_utf8_def units_replacement)

lemma askPerplexity_json_hello:
  "askPerplexity (rt_json 200 (Some reply_hello)) env_key query \<lparr>style = None, minWords = None\<rparr> =
     (Inr \<lparr>full = JStr (js ''hello''),
           meta_model = opt_prop (Some reply_hello) (js ''model''),
           meta_usage = opt_prop (Some reply_hello) (js ''usage'')\<rparr>,
      [request_for (rt_json 200 (Some reply_hello)) env_key (js ''pplx-key'') default_system query])"
proof -
  have ok: "res_ok \<lparr>res_status = 200, res_text = Some (js ''busy''), res_json = Some reply_hello\<rparr>"
    by (simp add: res_ok_def)
  have f: "fetch (rt_json 200 (Some reply_hello))
      (request_for (rt_json 200 (Some reply_hello)) env_key (js ''pplx-key'')
         (system (rt_json 200 (Some reply_hello)) \<lparr>style = None, minWords = None\<rparr>) query) =
      Resolved \<lparr>res_status = 200, res_text = Some (js ''busy''), res_json = Some reply_hello\<rparr>"
    by (simp add: rt_json_def)
  show ?thesis
    using askPerplexity_ok [OF env_key_simps f ok]
    by (simp add: reply_hello_full system_no_opts)
qed

lemma request_json_garbage:
  \<open>request_for (rt_json 200 (Some reply_hello)) env_key (js ''pplx-key'') default_system
     [0xFFFD, 0xFFFD, 0x7E, 0xFFFD, 0xFFFD, 0x62, 0x77, 0xFFFD, 0x6B1, 0xFFFD] =
     \<lparr>req_url = js ''https://api.perplexity.ai/chat/completions'',
      req_method = js ''POST'',
      req_headers =
        [(js ''Authorization'', js ''Bearer pplx-key''),
         (js ''Content-Type'', js ''application/json'')],
      req_body =
        js ''{"model":"sonar-pro","messages":[{"role":"system","content":"Answer helpfully and accurately."},{"role":"user","content":"''
        @ [0xFFFD, 0xFFFD, 0x7E, 0xFFFD, 0xFFFD, 0x62, 0x77, 0xFFFD, 0x6B1, 0xFFFD]
        @ js ''"}],"temperature":0.3}''\<rparr>\<close>
proof -
  have m: "PPLX_MODEL env_key = js ''sonar-pro''"
    by (simp add: PPLX_MODEL_def env_key_def)
  have s: "JSON_stringify (rt_json 200 (Some reply_hello)) = stringify"
    by (simp add: rt_json_def)
  show ?thesis
    unfolding request_for_explicit default_system_def m s
    by (simp add: show_number_temperature) (simp add: json_text_simps)
qed

section \<open>The claims\<close>

text \<open>
  Claim C1. For every string \<open>q\<close> that has a UTF-8 encoding, that is every well-formed
  string, decoding the reference made by encoding \<open>q\<close> gives \<open>q\<close> back:
  \<open>b64dec (b64enc q) = q\<close>. The empty string is included.
\<close>

theorem b64dec_b64enc: "isWellFormed q \<Longrightarrow> b64dec (b64enc q) = q"
  by (simp only: b64dec_def b64enc_def base64_inverse utf8_inverse)

theorem b64dec_b64enc_witness:
  "isWellFormed (js ''cats'') \<and> b64dec (b64enc (js ''cats'')) = js ''cats''"
  using b64dec_b64enc [of "js ''cats''"] wellFormed_cats by simp

text \<open>
  Claim C2, as stated, fails: no decode error exists in the code. The buffer conversion
  skips what is not in the alphabet, so the reference \<^verbatim>\<open>not-valid-base64!!\<close> decodes to
  twelve bytes, their ill-formed parts become U+FFFD, and the fetch tool asks the
  upstream with that text and returns a document, here for an upstream that
  answers \<^verbatim>\<open>hello\<close>.
\<close>

theorem malformed_reference_counterexample:
  \<open>b64dec (js ''not-valid-base64!!'') =
     [0xFFFD, 0xFFFD, 0x7E, 0xFFFD, 0xFFFD, 0x62, 0x77, 0xFFFD, 0x6B1, 0xFFFD]
   \<and> fetch_handler (rt_json 200 (Some reply_hello)) env_key (js ''not-valid-base64!!'') =
     (Inr (js ''{"id":"not-valid-base64!!","title":"Perplexity: ''
           @ [0xFFFD, 0xFFFD, 0x7E, 0xFFFD, 0xFFFD, 0x62, 0x77, 0xFFFD, 0x6B1, 0xFFFD]
           @ js ''","text":"hello","url":"https://www.perplexity.ai/search?q=%EF%BF%BD%EF%BF%BD~%EF%BF%BD%EF%BF%BDbw%EF%BF%BD%DA%B1%EF%BF%BD","metadata":{"source":"perplexity","model":"sonar-pro"}}''),
      [\<lparr>req_url = js ''https://api.perplexity.ai/chat/completions'',
        req_method = js ''POST'',
        req_headers =
          [(js ''Authorization'', js ''Bearer pplx-key''),
           (js ''Content-Type'', js ''application/json'')],
        req_body =
          js ''{"model":"sonar-pro","messages":[{"role":"system","content":"Answer helpfully and accurately."},{"role":"user","content":"''
          @ [0xFFFD, 0xFFFD, 0x7E, 0xFFFD, 0xFFFD, 0x62, 0x77, 0xFFFD, 0x6B1, 0xFFFD]
          @ js ''"}],"temperature":0.3}''\<rparr>])\<close>
proof -
  have m: "PPLX_MODEL env_key = js ''sonar-pro''"
    by (simp add: PPLX_MODEL_def env_key_def)
  have s: "JSON_stringify (rt_json 200 (Some reply_hello)) = stringify"
    by (simp add: rt_json_def)
  have "fetch_handler (rt_json 200 (Some reply_hello)) env_key (js ''not-valid-base64!!'') =
     (Inr (stringify (JObj
        [(js ''id'', JStr (js ''not-valid-base64!!'')),
         (js ''title'', JStr (js ''Perplexity: '' @
            [0xFFFD, 0xFFFD, 0x7E, 0xFFFD, 0xFFFD, 0x62, 0x77, 0xFFFD, 0x6B1, 0xFFFD])),
         (js ''text'', JStr (js ''hello'')),
         (js ''url'', JStr (js ''https://www.perplexity.ai/search?q='' @
            js ''%EF%BF%BD%EF%BF%BD~%EF%BF%BD%EF%BF%BDbw%EF%BF%BD%DA%B1%EF%BF%BD'')),
         (js ''metadata'', JObj
            [(js ''source'', JStr (js ''perplexity'')),
             (js ''model'', JStr (js ''sonar-pro''))])])),
      [request_for (rt_json 200 (Some reply_hello)) env_key (js ''pplx-key'') default_system
         [0xFFFD, 0xFFFD, 0x7E, 0xFFFD, 0xFFFD, 0x62, 0x77, 0xFFFD, 0x6B1, 0xFFFD]])"
    unfolding fetch_handler_def Let_def b64dec_garbage askPerplexity_json_hello garbage_uri m s
    by simp
  then show ?thesis
    unfolding request_json_garbage
    by (simp add: b64dec_garbage) (simp add: json_text_simps)
qed

text \<open>
  Claim C2, amended. For every input string, validly encoded or not, the decode step of
  the fetch tool does not fail. Its result is the UTF-8 reading of the bytes given by
  the characters of the base64 alphabets that stand before the first \<open>=\<close>; every other
  character is skipped. The UTF-8 reading gives a well-formed string: it reads the bytes
  of a well-formed string as that string, and it writes U+FFFD for a byte that cannot
  start a sequence, for a lead byte at the end of the input and for a lead byte that is
  followed by a byte that is no continuation byte. So the reference
  \<^verbatim>\<open>not-valid-base64!!\<close> decodes to text with U+FFFD in it, and no error is raised. The
  call then goes on to the answer gateway with the decoded text, and it fails exactly
  when the gateway fails, with the gateway's error.
\<close>

theorem lenient_decode:
  "b64dec ident =
     toString_utf8 (octets (map (\<lambda>u. the (unbase64 (ucast u)))
       (filter (\<lambda>u. unbase64 (ucast u) \<noteq> None)
          (takeWhile (\<lambda>u. (ucast u :: 8 word) \<noteq> 0x3D) ident))))
   \<and> isWellFormed (b64dec ident)
   \<and> (isWellFormed s \<longrightarrow> toString_utf8 (Buffer_from_utf8 s) = s)
   \<and> ((0x80 \<le> unat b \<and> unat b \<le> 0xC1) \<or> 0xF5 \<le> unat b \<longrightarrow>
        toString_utf8 (b # bs) = 0xFFFD # toString_utf8 bs)
   \<and> (0xC2 \<le> unat b \<and> unat b \<le> 0xF4 \<longrightarrow> toString_utf8 [b] = [0xFFFD])
   \<and> (0xC2 \<le> unat b \<and> unat b \<le> 0xF4 \<and> (unat c < 0x80 \<or> 0xBF < unat c) \<longrightarrow>
        toString_utf8 (b # c # bs) = 0xFFFD # toString_utf8 (c # bs))
   \<and> b64dec (js ''not-valid-base64!!'') =
       [0xFFFD, 0xFFFD, 0x7E, 0xFFFD, 0xFFFD, 0x62, 0x77, 0xFFFD, 0x6B1, 0xFFFD]
   \<and> (fst (fetch_handler rt e ident) = Inl err \<longleftrightarrow>
        fst (askPerplexity rt e (b64dec ident) \<lparr>style = None, minWords = None\<rparr>) = Inl err)"
  using b64dec_lenient [of ident] b64dec_wellFormed [of ident] utf8_inverse [of s]
    toString_utf8_replacement [of b bs c] b64dec_garbage
    fetch_handler_fails_iff [of rt e ident err]
  by blast

theorem lenient_decode_witness:
  "toString_utf8 (0x9E # [0x41]) = 0xFFFD # toString_utf8 [0x41]
   \<and> toString_utf8 [0xE6] = [0xFFFD]
   \<and> toString_utf8 (0xE6 # 0xDA # [0xB1]) = 0xFFFD # toString_utf8 (0xDA # [0xB1])
   \<and> toString_utf8 (Buffer_from_utf8 (js ''cats'')) = js ''cats''
   \<and> fst (fetch_handler (rt_reply 503 None) env_key (js ''not-valid-base64!!'')) =
       Inl (Error (js ''Perplexity 503: busy''))"
proof -
  have f: "fetch (rt_reply 503 None)
      (request_for (rt_reply 503 None) env_key (js ''pplx-key'')
         (system (rt_reply 503 None) \<lparr>style = None, minWords = None\<rparr>)
         (b64dec (js ''not-valid-base64!!''))) =
      Resolved \<lparr>res_status = 503, res_text = Some (js ''busy''), res_json = None\<rparr>"
    by (simp add: rt_reply_def)
  have n: "\<not> res_ok \<lparr>res_status = 503, res_text = Some (js ''busy''), res_json = None\<rparr>"
    by (simp add: res_ok_def)
  have g: "fst (askPerplexity (rt_reply 503 None) env_key (b64dec (js ''not-valid-base64!!''))
      \<lparr>style = None, minWords = None\<rparr>) = Inl (Error (js ''Perplexity 503: busy''))"
    using askPerplexity_not_ok [OF env_key_simps f n]
    by (simp add: rt_reply_def decimal_503 js_def)
  note t1 = lenient_decode [where b = "0x9E" and bs = "[0x41]"]
  note t2 = lenient_decode [where b = "0xE6" and c = "0xDA" and bs = "[0xB1]" and s = "js ''cats''"
      and ident = "js ''not-valid-base64!!''" and rt = "rt_reply 503 None" and e = env_key
      and err = "Error (js ''Perplexity 503: busy'')"]
  have 1: "toString_utf8 (0x9E # [0x41]) = 0xFFFD # toString_utf8 [0x41]"
    using t1 [THEN conjunct2, THEN conjunct2, THEN conjunct2, THEN conjunct1] by simp
  have 2: "toString_utf8 [0xE6] = [0xFFFD]"
    using t2 [THEN conjunct2, THEN conjunct2, THEN conjunct2, THEN conjunct2, THEN conjunct1]
    by simp
  have 3: "toString_utf8 (0xE6 # 0xDA # [0xB1]) = 0xFFFD # toString_utf8 (0xDA # [0xB1])"
    using t2 [THEN conjunct2, THEN conjunct2, THEN conjunct2, THEN conjunct2, THEN conjunct2,
        THEN conjunct1]
    by simp
  have 4: "toString_utf8 (Buffer_from_utf8 (js ''cats'')) = js ''cats''"
    using t2 [THEN conjunct2, THEN conjunct2, THEN conjunct1] wellFormed_cats by blast
  have 5: "fst (fetch_handler (rt_reply 503 None) env_key (js ''not-valid-base64!!'')) =
       Inl (Error (js ''Perplexity 503: busy''))"
    using t2 [THEN conjunct2, THEN conjunct2, THEN conjunct2, THEN conjunct2, THEN conjunct2,
        THEN conjunct2, THEN conjunct2] g
    by blast
  show ?thesis using 1 2 3 4 5 by blast
qed

text \<open>
  Claim C3 is not met by the code at a call that gives \<^verbatim>\<open>minWords\<close> without \<^verbatim>\<open>style\<close>. The
  guard \<^verbatim>\<open>if (style || minWords)\<close> lets the call in, but the conditional that computes the
  target has no branch for an absent style and yields \<^verbatim>\<open>undefined\<close>, so the default
  instruction is sent, with no word target: so for the answer tool called with
  \<^verbatim>\<open>{"query": "x", "min_words": 500}\<close>. The claim asks for a target of \<^verbatim>\<open>minWords\<close>,
  here 500.
\<close>

theorem min_words_without_style:
  "answer_inputSchema
     (Some (JObj [(js ''query'', JStr (js ''x'')), (js ''min_words'', JNum 500)])) =
     Some \<lparr>arg_query = js ''x'', arg_style = None, arg_min_words = Some 500\<rparr>
   \<and> target \<lparr>style = None, minWords = Some 500\<rparr> = None
   \<and> system rt \<lparr>style = None, minWords = Some 500\<rparr> = default_system
   \<and> snd (answer_handler rt env_key (js ''x'') None (Some 500)) =
       [request_for rt env_key (js ''pplx-key'') default_system (js ''x'')]"
proof -
  have s: "system rt \<lparr>style = None, minWords = Some 500\<rparr> = default_system"
    by (simp add: target_def system_def)
  have "snd (answer_handler rt env_key (js ''x'') None (Some 500)) =
      [request_for rt env_key (js ''pplx-key'') default_system (js ''x'')]"
    using askPerplexity_with_key [OF env_key_simps, of rt "js ''x''"
        "\<lparr>style = None, minWords = Some 500\<rparr>"]
    by (simp add: s answer_handler_requests)
  then show ?thesis
    by (simp add: s target_def answer_inputSchema_min_words_only)
qed

text \<open>
  Claim C4. When the upstream credential is absent (the variable is unset or empty),
  the gateway fails with the configuration error \<^verbatim>\<open>Missing PERPLEXITY_API_KEY\<close> before any
  request; so do the handlers of the answer tool and of the fetch tool, for all their
  arguments. A call of either tool with valid arguments reports this error as the
  failure of that call, and no call of any tool, whatever its arguments, gives a
  request to the network.
\<close>

theorem missing_credential:
  assumes "PERPLEXITY_API_KEY e = None \<or> PERPLEXITY_API_KEY e = Some []"
  shows "askPerplexity rt e query o' = (Inl (Error (js ''Missing PERPLEXITY_API_KEY'')), [])
       \<and> answer_handler rt e query sty mw =
           (Inl (Error (js ''Missing PERPLEXITY_API_KEY'')), [])
       \<and> fetch_handler rt e ident = (Inl (Error (js ''Missing PERPLEXITY_API_KEY'')), [])
       \<and> (answer_inputSchema args = Some a \<longrightarrow>
            callTool rt e (js ''answer'') args =
              (ToolError (Error (js ''Missing PERPLEXITY_API_KEY'')), []))
       \<and> (fetch_inputSchema args = Some i \<longrightarrow>
            callTool rt e (js ''fetch'') args =
              (ToolError (Error (js ''Missing PERPLEXITY_API_KEY'')), []))
       \<and> snd (callTool rt e name args) = []"
proof -
  note ask = askPerplexity_no_key [OF assms]
  have "snd (callTool rt e name args) = []"
    by (auto simp add: callTool_def settle_def fetch_handler_def answer_handler_def ask
        search_handler_def split: option.splits sum.splits)
  then show ?thesis
    by (simp add: callTool_def js_eq_simps fetch_handler_error [OF ask]
        answer_handler_error [OF ask] settle_error ask)
qed

theorem missing_credential_witness:
  "answer_handler (rt_reply 200 (Some reply_hello)) env_no_key (js ''x'') None None =
     (Inl (Error (js ''Missing PERPLEXITY_API_KEY'')), [])
   \<and> fetch_handler (rt_reply 200 (Some reply_hello)) env_no_key (js ''Y2F0cw'') =
     (Inl (Error (js ''Missing PERPLEXITY_API_KEY'')), [])
   \<and> callTool (rt_reply 200 (Some reply_hello)) env_no_key (js ''answer'')
     (Some (JObj [(js ''query'', JStr (js ''x''))])) =
     (ToolError (Error (js ''Missing PERPLEXITY_API_KEY'')), [])
   \<and> callTool (rt_reply 200 (Some reply_hello)) env_no_key (js ''fetch'')
     (Some (JObj [(js ''id'', JStr (js ''Y2F0cw''))])) =
     (ToolError (Error (js ''Missing PERPLEXITY_API_KEY'')), [])"
proof -
  have k: "PERPLEXITY_API_KEY env_no_key = None \<or> PERPLEXITY_API_KEY env_no_key = Some []"
    by (simp add: env_no_key_def)
  have a: "answer_inputSchema (Some (JObj [(js ''query'', JStr (js ''x''))])) =
      Some \<lparr>arg_query = js ''x'', arg_style = None, arg_min_words = None\<rparr>"
    by (simp add: answer_inputSchema_def z_string_def z_optional_def js_def unit16_def)
  have f: "fetch_inputSchema (Some (JObj [(js ''id'', JStr (js ''Y2F0cw''))])) = Some (js ''Y2F0cw'')"
    by (simp add: fetch_inputSchema_def z_string_def)
  show ?thesis
    using missing_credential [OF k, where args = "Some (JObj [(js ''query'', JStr (js ''x''))])"
        and a = "\<lparr>arg_query = js ''x'', arg_style = None, arg_min_words = None\<rparr>"
        and rt = "rt_reply 200 (Some reply_hello)" and query = "js ''x''" and sty = None
        and mw = None and ident = "js ''Y2F0cw''"]
      missing_credential [OF k, where args = "Some (JObj [(js ''id'', JStr (js ''Y2F0cw''))])"
        and i = "js ''Y2F0cw''" and rt = "rt_reply 200 (Some reply_hello)"]
      a f by simp
qed

text \<open>
  Claim C5. When the upstream answers with a status outside 200..299, the gateway fails
  with an error whose message carries the status and the body text, the empty text
  when the body cannot be read. Exactly one request has been made: there is no retry.
  The answer tool and the fetch tool report this same error as the failure of the call.
\<close>

theorem upstream_error:
  assumes "PERPLEXITY_API_KEY e = Some k" "k \<noteq> []"
    and "fetch rt (request_for rt e k (system rt o') query) = Resolved res"
    and "\<not> res_ok res"
    and "err = Error (js ''Perplexity '' @ ToString rt (JNum (of_nat (res_status res)))
            @ js '': '' @ (case res_text res of None \<Rightarrow> [] | Some txt \<Rightarrow> txt))"
  shows "askPerplexity rt e query o' = (Inl err, [request_for rt e k (system rt o') query])
       \<and> (o' = \<lparr>style = sty, minWords = mw\<rparr> \<longrightarrow>
            settle (answer_handler rt e query sty mw) =
              (ToolError err, [request_for rt e k (system rt o') query]))
       \<and> (o' = \<lparr>style = None, minWords = None\<rparr> \<and> query = b64dec ident \<longrightarrow>
            settle (fetch_handler rt e ident) =
              (ToolError err, [request_for rt e k default_system query]))"
proof -
  have ask: "askPerplexity rt e query o' = (Inl err, [request_for rt e k (system rt o') query])"
    unfolding assms(5) using assms(1-4) by (rule askPerplexity_not_ok)
  show ?thesis
    using ask by (auto simp add: answer_handler_error fetch_handler_error settle_error
        system_no_opts)
qed

theorem upstream_error_witness:
  "askPerplexity (rt_reply 503 None) env_key (js ''x'') \<lparr>style = None, minWords = None\<rparr> =
     (Inl (Error (js ''Perplexity 503: busy'')),
      [request_for (rt_reply 503 None) env_key (js ''pplx-key'') default_system (js ''x'')])"
proof -
  have k: "PERPLEXITY_API_KEY env_key = Some (js ''pplx-key'')" "js ''pplx-key'' \<noteq> []"
    by (simp_all add: env_key_def js_def)
  have f: "fetch (rt_reply 503 None)
      (request_for (rt_reply 503 None) env_key (js ''pplx-key'')
         (system (rt_reply 503 None) \<lparr>style = None, minWords = None\<rparr>) (js ''x'')) =
      Resolved \<lparr>res_status = 503, res_text = Some (js ''busy''), res_json = None\<rparr>"
    by (simp add: rt_reply_def)
  have n: "\<not> res_ok \<lparr>res_status = 503, res_text = Some (js ''busy''), res_json = None\<rparr>"
    by (simp add: res_ok_def)
  show ?thesis
    using upstream_error [OF k f n refl, where sty = None and mw = None]
    by (simp add: system_no_opts rt_reply_def decimal_503 js_def)
qed

text \<open>
  Claim C6, as stated, fails: a response with a success status whose body is empty or is
  not JSON makes \<^verbatim>\<open>res.json()\<close> throw, and the gateway fails the call; and a parsed payload
  of another shape than expected can give an answer that is not the empty string, as
  one whose \<^verbatim>\<open>content\<close> is the number 42.
\<close>

theorem degenerate_payload_counterexample:
  "fst (askPerplexity (rt_reply 200 None) env_key (js ''x'') \<lparr>style = None, minWords = None\<rparr>)
     = Inl SyntaxError
   \<and> extract_full
       (JObj [(js ''choices'', JArr [JObj [(js ''message'', JObj [(js ''content'', JNum 42)])]])])
     = JNum 42"
proof -
  have "res_ok \<lparr>res_status = 200, res_text = Some (js ''busy''), res_json = None\<rparr>"
    by (simp add: res_ok_def)
  then show ?thesis
    using askPerplexity_ok [OF env_key_simps, of "rt_reply 200 None" _ "js ''x''"]
    by (simp add: rt_reply_def wrong_type_content)
qed

text \<open>
  Claim C6, amended. For a response with a success status whose body parses as JSON, the
  gateway does not fail, and the answer text is the empty string whenever both
  \<^verbatim>\<open>choices[0].message.content\<close> and \<^verbatim>\<open>choices[0].text\<close> are absent or null; this is so
  for the payload \<^verbatim>\<open>null\<close>, for a payload that is not an object, for one without
  \<^verbatim>\<open>choices\<close> and for one whose \<^verbatim>\<open>choices\<close> is null or an empty list. A body that does not
  parse as JSON fails the call with the parser's error, after the one request.
\<close>

theorem degenerate_payload:
  assumes "PERPLEXITY_API_KEY e = Some k" "k \<noteq> []"
    and "fetch rt (request_for rt e k (system rt o') query) = Resolved res"
    and "res_ok res"
  shows "(res_json res = Some j \<longrightarrow>
            (\<exists>a. askPerplexity rt e query o' = (Inr a, [request_for rt e k (system rt o') query])
               \<and> full a = extract_full j))
       \<and> (nullish (opt_prop (opt_prop (opt_first (opt_prop (Some j) (js ''choices'')))
               (js ''message'')) (js ''content''))
          \<and> nullish (opt_prop (opt_first (opt_prop (Some j) (js ''choices''))) (js ''text''))
          \<longrightarrow> extract_full j = JStr [])
       \<and> (j = JNull \<or> (\<forall>kvs. j \<noteq> JObj kvs)
          \<or> (\<exists>kvs. j = JObj kvs \<and> map_of kvs (js ''choices'') \<in> {None, Some JNull, Some (JArr [])})
          \<longrightarrow> extract_full j = JStr [])
       \<and> (res_json res = None \<longrightarrow>
            askPerplexity rt e query o' =
              (Inl SyntaxError, [request_for rt e k (system rt o') query]))"
proof -
  note ask = askPerplexity_ok [OF assms]
  have shape: "extract_full j = JStr []"
    if "j = JNull \<or> (\<forall>kvs. j \<noteq> JObj kvs)
      \<or> (\<exists>kvs. j = JObj kvs \<and> map_of kvs (js ''choices'') \<in> {None, Some JNull, Some (JArr [])})"
  proof -
    have "opt_first (opt_prop (Some j) (js ''choices'')) = None"
      using that by (cases j) auto
    then show ?thesis by (rule extract_full_no_choices)
  qed
  show ?thesis
    using shape by (auto simp add: ask extract_full_nullish)
qed

theorem degenerate_payload_witness:
  "\<exists>a. askPerplexity (rt_reply 200 (Some (JObj []))) env_key (js ''x'')
         \<lparr>style = None, minWords = None\<rparr> =
         (Inr a, [request_for (rt_reply 200 (Some (JObj []))) env_key (js ''pplx-key'')
                    default_system (js ''x'')])
       \<and> full a = JStr []"
proof -
  have ok: "res_ok \<lparr>res_status = 200, res_text = Some (js ''busy''), res_json = Some (JObj [])\<rparr>"
    by (simp add: res_ok_def)
  have f: "fetch (rt_reply 200 (Some (JObj [])))
      (request_for (rt_reply 200 (Some (JObj []))) env_key (js ''pplx-key'')
         (system (rt_reply 200 (Some (JObj []))) \<lparr>style = None, minWords = None\<rparr>) (js ''x'')) =
      Resolved \<lparr>res_status = 200, res_text = Some (js ''busy''), res_json = Some (JObj [])\<rparr>"
    by (simp add: rt_reply_def)
  show ?thesis
    using degenerate_payload [OF env_key_simps f ok, of "JObj []"]
    by (auto simp add: system_no_opts)
qed

text \<open>
  Claim C7, as stated, fails: the search tool does not return a result for every query
  its schema accepts. For a string with a lone surrogate \<^verbatim>\<open>encodeURIComponent\<close> throws, and
  the handler fails with that error.
\<close>

theorem search_one_result_counterexample:
  "search_inputSchema (Some (JObj [(js ''query'', JStr [0xD800])])) = Some [0xD800]
   \<and> search_handler (rt_json 200 None) [0xD800] = (Inl URIError, [])"
proof -
  have "\<not> isWellFormed [0xD800]"
    by (simp add: isWellFormed_def isLeadSurrogate_def)
  then show ?thesis
    by (simp add: search_handler_URIError search_inputSchema_query)
qed

text \<open>
  Claim C7, amended. For every query that is a well-formed string, the handler of the
  search tool returns the JSON text of an object whose \<^verbatim>\<open>results\<close> is a list of exactly
  one entry: its \<^verbatim>\<open>id\<close> is the base64url encoding of the query, its \<^verbatim>\<open>title\<close> is
  \<^verbatim>\<open>Perplexity: \<close> followed by the query, and its \<^verbatim>\<open>url\<close> is the search address followed
  by the query with every code point outside the unreserved characters written as the
  percent-escaped bytes of its UTF-8 form. The encoding is the character of the
  URL-safe table for each 6-bit group of the UTF-8 bytes of the query, so it consists
  of characters of that table only, and decoding it gives the query back. For a query
  with a lone surrogate the handler fails with \<^verbatim>\<open>URIError\<close>. In no case does the handler
  give a request to the network, and no call of the search tool does.
\<close>

theorem search_one_result:
  "(isWellFormed query \<longrightarrow>
      search_handler rt query =
        (Inr (JSON_stringify rt (JObj
           [(js ''results'', JArr
              [JObj [(js ''id'', JStr (b64enc query)),
                     (js ''title'', JStr (js ''Perplexity: '' @ query)),
                     (js ''url'', JStr (js ''https://www.perplexity.ai/search?q='' @
                        concat (map
                          (\<lambda>c. case c of
                                 None \<Rightarrow> []
                               | Some cp \<Rightarrow>
                                   if uriUnreserved cp then [unit16 cp]
                                   else concat (map percent (utf8_bytes cp)))
                          (codePoints query))))]])])),
         [])
      \<and> b64dec (b64enc query) = query)
   \<and> b64enc query = map (\<lambda>i. base64url_table ! i) (sextets (Buffer_from_utf8 query))
   \<and> set (b64enc query) \<subseteq> set base64url_table
   \<and> (\<not> isWellFormed query \<longrightarrow> search_handler rt query = (Inl URIError, []))
   \<and> snd (search_handler rt query) = []
   \<and> snd (callTool rt e (js ''search'') args) = []"
proof -
  have 1: "isWellFormed query \<longrightarrow>
      search_handler rt query =
        (Inr (JSON_stringify rt (JObj
           [(js ''results'', JArr
              [JObj [(js ''id'', JStr (b64enc query)),
                     (js ''title'', JStr (js ''Perplexity: '' @ query)),
                     (js ''url'', JStr (js ''https://www.perplexity.ai/search?q='' @
                        concat (map
                          (\<lambda>c. case c of
                                 None \<Rightarrow> []
                               | Some cp \<Rightarrow>
                                   if uriUnreserved cp then [unit16 cp]
                                   else concat (map percent (utf8_bytes cp)))
                          (codePoints query))))]])])),
         [])"
    by (simp add: search_handler_def encodeURIComponent_def)
  have 2: "snd (callTool rt e (js ''search'') args) = []"
    by (simp add: callTool_def js_eq_simps settle_snd search_handler_requests
        split: option.splits)
  show ?thesis
    using 1 2 b64dec_b64enc_inverse [of query] b64enc_explicit [of query]
      b64enc_alphabet [of query] search_handler_URIError [of query rt]
      search_handler_requests [of rt query]
    by blast
qed

theorem search_one_result_witness:
  \<open>search_handler (rt_json 200 None) (js ''cats'') =
     (Inr (js ''{"results":[{"id":"Y2F0cw","title":"Perplexity: cats","url":"https://www.perplexity.ai/search?q=cats"}]}''),
      [])
   \<and> b64dec (js ''Y2F0cw'') = js ''cats''\<close>
proof -
  have u: "concat (map
      (\<lambda>c. case c of
             None \<Rightarrow> []
           | Some cp \<Rightarrow>
               if uriUnreserved cp then [unit16 cp] else concat (map percent (utf8_bytes cp)))
      (codePoints (js ''cats''))) = js ''cats''"
    using encodeURIComponent_cats by (simp add: encodeURIComponent_def wellFormed_cats)
  have s: "JSON_stringify (rt_json 200 None) = stringify"
    by (simp add: rt_json_def)
  have "search_handler (rt_json 200 None) (js ''cats'') =
        (Inr (JSON_stringify (rt_json 200 None) (JObj
           [(js ''results'', JArr
              [JObj [(js ''id'', JStr (b64enc (js ''cats''))),
                     (js ''title'', JStr (js ''Perplexity: '' @ js ''cats'')),
                     (js ''url'', JStr (js ''https://www.perplexity.ai/search?q='' @
                        concat (map
                          (\<lambda>c. case c of
                                 None \<Rightarrow> []
                               | Some cp \<Rightarrow>
                                   if uriUnreserved cp then [unit16 cp]
                                   else concat (map percent (utf8_bytes cp)))
                          (codePoints (js ''cats'')))))]])])),
         [])
      \<and> b64dec (b64enc (js ''cats'')) = js ''cats''"
    using search_one_result [of "js ''cats''" "rt_json 200 None", THEN conjunct1] wellFormed_cats
    by blast
  then show ?thesis
    unfolding u b64enc_cats s by (simp add: json_text_simps)
qed

text \<open>
  Claim C8, as stated, fails: \<^verbatim>\<open>z.string()\<close> has no minimum length, so the empty string
  passes the schema of each of the three tools, and the handler runs.
\<close>

theorem input_validation_counterexample:
  "search_inputSchema (Some (JObj [(js ''query'', JStr [])])) = Some []
   \<and> fetch_inputSchema (Some (JObj [(js ''id'', JStr [])])) = Some []
   \<and> answer_inputSchema (Some (JObj [(js ''query'', JStr [])])) =
       Some \<lparr>arg_query = [], arg_style = None, arg_min_words = None\<rparr>
   \<and> fst (callTool (rt_reply 200 None) env_key (js ''search'')
           (Some (JObj [(js ''query'', JStr [])]))) = ToolText []"
proof -
  have "search_inputSchema (Some (JObj [(js ''query'', JStr [])])) = Some []"
    by (rule search_inputSchema_query)
  moreover have "encodeURIComponent [] = Inr []"
    by (simp add: encodeURIComponent_def isWellFormed_def)
  moreover have "answer_inputSchema (Some (JObj [(js ''query'', JStr [])])) =
      Some \<lparr>arg_query = [], arg_style = None, arg_min_words = None\<rparr>"
    by (simp add: answer_inputSchema_def z_string_def z_optional_def js_def unit16_def)
  ultimately show ?thesis
    by (simp add: callTool_def js_eq_simps settle_def search_handler_def rt_reply_def
        fetch_inputSchema_id)
qed

text \<open>
  Claim C8, amended. The input schema of a tool rejects the arguments when \<^verbatim>\<open>style\<close> is
  present and is not one of \<^verbatim>\<open>short\<close>, \<^verbatim>\<open>medium\<close>, \<^verbatim>\<open>long\<close>, when \<^verbatim>\<open>min_words\<close> is
  present and is not a positive integer, or when the required \<^verbatim>\<open>query\<close> or \<^verbatim>\<open>id\<close> is
  absent or is not a string. A call with rejected arguments fails with a
  schema-validation error before the handler runs, and so before any request. The
  empty string is accepted as \<^verbatim>\<open>query\<close> and as \<^verbatim>\<open>id\<close>.
\<close>

theorem input_validation:
  "(map_of kvs (js ''style'') = Some v
      \<and> v \<notin> {JStr (js ''short''), JStr (js ''medium''), JStr (js ''long'')}
      \<longrightarrow> answer_inputSchema (Some (JObj kvs)) = None)
   \<and> (map_of kvs (js ''min_words'') = Some v \<and> (\<forall>n. 0 < n \<longrightarrow> v \<noteq> JNum (of_int n))
      \<longrightarrow> answer_inputSchema (Some (JObj kvs)) = None)
   \<and> ((\<forall>s. map_of kvs (js ''query'') \<noteq> Some (JStr s))
      \<longrightarrow> answer_inputSchema (Some (JObj kvs)) = None
        \<and> search_inputSchema (Some (JObj kvs)) = None)
   \<and> ((\<forall>s. map_of kvs (js ''id'') \<noteq> Some (JStr s))
      \<longrightarrow> fetch_inputSchema (Some (JObj kvs)) = None)
   \<and> (answer_inputSchema args = None
      \<longrightarrow> callTool rt e (js ''answer'') args = (InvalidParams, []))
   \<and> (search_inputSchema args = None
      \<longrightarrow> callTool rt e (js ''search'') args = (InvalidParams, []))
   \<and> (fetch_inputSchema args = None
      \<longrightarrow> callTool rt e (js ''fetch'') args = (InvalidParams, []))
   \<and> search_inputSchema (Some (JObj [(js ''query'', JStr [])])) = Some []
   \<and> fetch_inputSchema (Some (JObj [(js ''id'', JStr [])])) = Some []
   \<and> answer_inputSchema (Some (JObj [(js ''query'', JStr [])])) =
       Some \<lparr>arg_query = [], arg_style = None, arg_min_words = None\<rparr>"
proof -
  have "answer_inputSchema (Some (JObj [(js ''query'', JStr [])])) =
      Some \<lparr>arg_query = [], arg_style = None, arg_min_words = None\<rparr>"
    by (simp add: answer_inputSchema_def z_string_def z_optional_def js_def unit16_def)
  moreover have "(\<forall>s. map_of kvs (js ''query'') \<noteq> Some (JStr s)) \<longrightarrow>
      search_inputSchema (Some (JObj kvs)) = None"
    by (simp add: search_inputSchema_def z_string_None)
  moreover have "(\<forall>s. map_of kvs (js ''id'') \<noteq> Some (JStr s)) \<longrightarrow>
      fetch_inputSchema (Some (JObj kvs)) = None"
    by (simp add: fetch_inputSchema_def z_string_None)
  ultimately show ?thesis
    using answer_inputSchema_style [of kvs v] answer_inputSchema_min_words [of kvs v]
      answer_inputSchema_query [of kvs]
    by (simp add: callTool_invalid search_inputSchema_query fetch_inputSchema_id)
qed

theorem input_validation_witness:
  "answer_inputSchema
     (Some (JObj [(js ''query'', JStr (js ''x'')), (js ''style'', JStr (js ''huge''))])) = None
   \<and> answer_inputSchema
     (Some (JObj [(js ''query'', JStr (js ''x'')), (js ''min_words'', JNum (- 3))])) = None
   \<and> search_inputSchema (Some (JObj [])) = None
   \<and> fetch_inputSchema (Some (JObj [])) = None
   \<and> callTool (rt_reply 200 None) env_key (js ''search'') (Some (JObj [])) = (InvalidParams, [])"
proof -
  have s: "map_of [(js ''query'', JStr (js ''x'')), (js ''style'', JStr (js ''huge''))] (js ''style'')
      = Some (JStr (js ''huge''))"
    "JStr (js ''huge'') \<notin> {JStr (js ''short''), JStr (js ''medium''), JStr (js ''long'')}"
    by (simp_all add: js_def unit16_def)
  have m: "map_of [(js ''query'', JStr (js ''x'')), (js ''min_words'', JNum (- 3))] (js ''min_words'')
      = Some (JNum (- 3))"
    by (simp add: js_def unit16_def)
  have n: "\<forall>n. 0 < n \<longrightarrow> JNum (- 3) \<noteq> JNum (of_int n)"
  proof (intro allI impI)
    fix n :: int
    assume "0 < n"
    then have "(of_int n :: rat) \<noteq> - 3" by (simp add: of_int_eq_iff [of n "- 3", simplified])
    then show "JNum (- 3) \<noteq> JNum (of_int n)" by simp
  qed
  note thm1 = input_validation
      [of "[(js ''query'', JStr (js ''x'')), (js ''style'', JStr (js ''huge''))]" "JStr (js ''huge'')"]
  note thm2 = input_validation
      [of "[(js ''query'', JStr (js ''x'')), (js ''min_words'', JNum (- 3))]" "JNum (- 3)"]
  note thm3 = input_validation
      [where kvs = "[]" and args = "Some (JObj [])" and rt = "rt_reply 200 None" and e = env_key]
  have a1: "answer_inputSchema
      (Some (JObj [(js ''query'', JStr (js ''x'')), (js ''style'', JStr (js ''huge''))])) = None"
    using thm1 [THEN conjunct1] s by blast
  have a2: "answer_inputSchema
      (Some (JObj [(js ''query'', JStr (js ''x'')), (js ''min_words'', JNum (- 3))])) = None"
    using thm2 [THEN conjunct2, THEN conjunct1] m n by blast
  have a3: "search_inputSchema (Some (JObj [])) = None"
    using thm3 [THEN conjunct2, THEN conjunct2, THEN conjunct1] by simp
  have a4: "fetch_inputSchema (Some (JObj [])) = None"
    using thm3 [THEN conjunct2, THEN conjunct2, THEN conjunct2, THEN conjunct1] by simp
  have a5: "callTool (rt_reply 200 None) env_key (js ''search'') (Some (JObj [])) =
      (InvalidParams, [])"
    using thm3 [THEN conjunct2, THEN conjunct2, THEN conjunct2, THEN conjunct2, THEN conjunct2,
        THEN conjunct1] a3 by blast
  show ?thesis
    using a1 a2 a3 a4 a5 by blast
qed

text \<open>
  Claim C9, as stated, fails: the fetch tool does not always go on to an upstream call.
  Without a credential the gateway throws first, and the handler makes no request.
\<close>

theorem fetch_proceeds_counterexample:
  "fetch_handler (rt_json 200 (Some reply_hello)) env_no_key (js ''Y2F0cw'') =
     (Inl (Error (js ''Missing PERPLEXITY_API_KEY'')), [])"
  by (rule fetch_handler_no_key) (simp add: env_no_key_def)

text \<open>
  Claim C9, amended. Decoding is total: for every string given as \<^verbatim>\<open>id\<close>, \<open>b64dec\<close> is the
  UTF-8 reading of the lenient base64 reading of the string, it gives a well-formed
  string and throws nothing, and the characters that are neither in the alphabet nor
  \<open>=\<close> are ignored: removing them from the string does not change the result. When a
  credential is configured, the handler of the fetch tool then gives exactly one
  request to the upstream: a POST to the completions address with the bearer
  credential, whose body holds the configured model, the default instruction as the
  system message, the decoded text, garbage or not, as the user message, and the
  temperature 0.3. When no credential is configured the handler fails with the
  configuration error and makes no request.
\<close>

theorem fetch_proceeds:
  "b64dec ident = toString_utf8 (Buffer_from_base64url ident)
   \<and> b64dec (filter (\<lambda>u. unbase64 (ucast u) \<noteq> None \<or> (ucast u :: 8 word) = 0x3D) ident) =
       b64dec ident
   \<and> isWellFormed (b64dec ident)
   \<and> (PERPLEXITY_API_KEY e = Some k \<and> k \<noteq> [] \<longrightarrow>
        snd (fetch_handler rt e ident) =
          [\<lparr>req_url = js ''https://api.perplexity.ai/chat/completions'',
            req_method = js ''POST'',
            req_headers =
              [(js ''Authorization'', js ''Bearer '' @ k),
               (js ''Content-Type'', js ''application/json'')],
            req_body = JSON_stringify rt (JObj
              [(js ''model'', JStr (PPLX_MODEL e)),
               (js ''messages'', JArr
                  [JObj [(js ''role'', JStr (js ''system'')),
                         (js ''content'', JStr (js ''Answer helpfully and accurately.''))],
                   JObj [(js ''role'', JStr (js ''user'')),
                         (js ''content'', JStr (b64dec ident))]]),
               (js ''temperature'', JNum (3 / 10))])\<rparr>])
   \<and> (PERPLEXITY_API_KEY e = None \<or> PERPLEXITY_API_KEY e = Some [] \<longrightarrow>
        fetch_handler rt e ident = (Inl (Error (js ''Missing PERPLEXITY_API_KEY'')), []))"
proof -
  have req: "snd (fetch_handler rt e ident) =
      [request_for rt e k default_system (b64dec ident)]"
    if "PERPLEXITY_API_KEY e = Some k" "k \<noteq> []"
    using askPerplexity_with_key [OF that, of rt "b64dec ident" "\<lparr>style = None, minWords = None\<rparr>"]
    by (simp add: fetch_handler_requests system_no_opts)
  have 1: "b64dec ident = toString_utf8 (Buffer_from_base64url ident)"
    by (simp add: b64dec_def)
  have 4: "PERPLEXITY_API_KEY e = Some k \<and> k \<noteq> [] \<longrightarrow>
        snd (fetch_handler rt e ident) =
          [\<lparr>req_url = js ''https://api.perplexity.ai/chat/completions'',
            req_method = js ''POST'',
            req_headers =
              [(js ''Authorization'', js ''Bearer '' @ k),
               (js ''Content-Type'', js ''application/json'')],
            req_body = JSON_stringify rt (JObj
              [(js ''model'', JStr (PPLX_MODEL e)),
               (js ''messages'', JArr
                  [JObj [(js ''role'', JStr (js ''system'')),
                         (js ''content'', JStr (js ''Answer helpfully and accurately.''))],
                   JObj [(js ''role'', JStr (js ''user'')),
                         (js ''content'', JStr (b64dec ident))]]),
               (js ''temperature'', JNum (3 / 10))])\<rparr>]"
    using req by (simp only: request_for_explicit default_system_def) blast
  have 5: "PERPLEXITY_API_KEY e = None \<or> PERPLEXITY_API_KEY e = Some [] \<longrightarrow>
        fetch_handler rt e ident = (Inl (Error (js ''Missing PERPLEXITY_API_KEY'')), [])"
    using fetch_handler_no_key [of e rt ident] by blast
  show ?thesis
    using 1 b64dec_ignores [of ident] b64dec_wellFormed [of ident] 4 5 by blast
qed

theorem fetch_proceeds_witness:
  \<open>snd (fetch_handler (rt_json 200 (Some reply_hello)) env_key (js ''not-valid-base64!!'')) =
     [\<lparr>req_url = js ''https://api.perplexity.ai/chat/completions'',
       req_method = js ''POST'',
       req_headers =
         [(js ''Authorization'', js ''Bearer pplx-key''),
          (js ''Content-Type'', js ''application/json'')],
       req_body =
         js ''{"model":"sonar-pro","messages":[{"role":"system","content":"Answer helpfully and accurately."},{"role":"user","content":"''
         @ [0xFFFD, 0xFFFD, 0x7E, 0xFFFD, 0xFFFD, 0x62, 0x77, 0xFFFD, 0x6B1, 0xFFFD]
         @ js ''"}],"temperature":0.3}''\<rparr>]\<close>
proof -
  have m: "PPLX_MODEL env_key = js ''sonar-pro''"
    by (simp add: PPLX_MODEL_def env_key_def)
  have "snd (fetch_handler (rt_json 200 (Some reply_hello)) env_key (js ''not-valid-base64!!'')) =
      [\<lparr>req_url = js ''https://api.perplexity.ai/chat/completions'',
        req_method = js ''POST'',
        req_headers =
          [(js ''Authorization'', js ''Bearer '' @ js ''pplx-key''),
           (js ''Content-Type'', js ''application/json'')],
        req_body = stringify (JObj
          [(js ''model'', JStr (js ''sonar-pro'')),
           (js ''messages'', JArr
              [JObj [(js ''role'', JStr (js ''system'')),
                     (js ''content'', JStr (js ''Answer helpfully and accurately.''))],
               JObj [(js ''role'', JStr (js ''user'')),
                     (js ''content'', JStr
                        [0xFFFD, 0xFFFD, 0x7E, 0xFFFD, 0xFFFD, 0x62, 0x77, 0xFFFD, 0x6B1, 0xFFFD])]]),
           (js ''temperature'', JNum (3 / 10))])\<rparr>]"
    using fetch_proceeds [of "js ''not-valid-base64!!''" env_key "js ''pplx-key''"
        "rt_json 200 (Some reply_hello)"] env_key_simps
    by (simp add: b64dec_garbage m rt_json_def)
  then show ?thesis
    by (simp add: show_number_temperature) (simp add: json_text_simps)
qed

text \<open>
  Claim C10. The document returned by a fetch call has as \<^verbatim>\<open>metadata.model\<close> the
  configured model identifier \<^verbatim>\<open>PPLX_MODEL\<close>, which is the value of \<^verbatim>\<open>PERPLEXITY_MODEL\<close> or
  \<^verbatim>\<open>sonar-pro\<close> when that is unset or empty. Of the answer of the gateway only the text
  enters the document: the model and the usage reported by the upstream do not occur
  in it.
\<close>

theorem fetch_model_static:
  assumes "fst (fetch_handler rt e ident) = Inr out"
  shows "\<exists>a u doc.
      fst (askPerplexity rt e (b64dec ident) \<lparr>style = None, minWords = None\<rparr>) = Inr a
      \<and> encodeURIComponent (b64dec ident) = Inr u
      \<and> doc = JObj
          [(js ''id'', JStr ident),
           (js ''title'', JStr (js ''Perplexity: '' @ b64dec ident)),
           (js ''text'', full a),
           (js ''url'', JStr (js ''https://www.perplexity.ai/search?q='' @ u)),
           (js ''metadata'', JObj
              [(js ''source'', JStr (js ''perplexity'')),
               (js ''model'', JStr (PPLX_MODEL e))])]
      \<and> out = JSON_stringify rt doc
      \<and> opt_prop (opt_prop (Some doc) (js ''metadata'')) (js ''model'') = Some (JStr (PPLX_MODEL e))
      \<and> PPLX_MODEL e =
          (case PERPLEXITY_MODEL e of
             None \<Rightarrow> js ''sonar-pro''
           | Some m \<Rightarrow> if m = [] then js ''sonar-pro'' else m)"
proof -
  obtain a u where
    "fst (askPerplexity rt e (b64dec ident) \<lparr>style = None, minWords = None\<rparr>) = Inr a"
    "encodeURIComponent (b64dec ident) = Inr u"
    "out = JSON_stringify rt (JObj
          [(js ''id'', JStr ident),
           (js ''title'', JStr (js ''Perplexity: '' @ b64dec ident)),
           (js ''text'', full a),
           (js ''url'', JStr (js ''https://www.perplexity.ai/search?q='' @ u)),
           (js ''metadata'', JObj
              [(js ''source'', JStr (js ''perplexity'')),
               (js ''model'', JStr (PPLX_MODEL e))])])"
    using fetch_handler_success [OF assms] by blast
  then show ?thesis
    by (simp add: key_names PPLX_MODEL_def)
qed

theorem fetch_model_static_witness:
  "\<exists>out doc. fst (fetch_handler (rt_reply 200 (Some reply_hello)) env_key (js ''Y2F0cw'')) = Inr out
     \<and> out = JSON_stringify (rt_reply 200 (Some reply_hello)) doc
     \<and> opt_prop (Some reply_hello) (js ''model'') = Some (JStr (js ''sonar''))
     \<and> opt_prop (opt_prop (Some doc) (js ''metadata'')) (js ''model'') = Some (JStr (js ''sonar-pro''))"
proof -
  obtain out where
    out: "fst (fetch_handler (rt_reply 200 (Some reply_hello)) env_key (js ''Y2F0cw'')) = Inr out"
    using fetch_handler_hello by blast
  have m: "PPLX_MODEL env_key = js ''sonar-pro''"
    by (simp add: PPLX_MODEL_def env_key_def)
  have r: "opt_prop (Some reply_hello) (js ''model'') = Some (JStr (js ''sonar''))"
    by (simp add: reply_hello_def)
  show ?thesis
    using fetch_model_static [OF out] out r unfolding m by blast
qed

end
